theory Spec2Isabelle
  imports Complex_Main "HOL-Library.Sublist"
begin

section \<open>CaseFlow import pipeline: the model\<close>

text \<open>
  A shallow embedding of the import pipeline of CaseFlow: the batch import service of the
  backend (\<^verbatim>\<open>import.service.ts\<close>), the client store (\<^verbatim>\<open>importStore.ts\<close>), the
  column mapper (\<^verbatim>\<open>columnMapping.ts\<close>) and the validation engine (\<^verbatim>\<open>validation.ts\<close>).

  Conventions. JavaScript numbers that count rows are \<^typ>\<open>int\<close>; strings are
  \<^typ>\<open>string\<close> and the model is exact for ASCII text; a value that may be
  \<^verbatim>\<open>undefined\<close> or \<^verbatim>\<open>null\<close> is an \<^typ>\<open>'a option\<close>; an exception is the
  \<open>Inl\<close> side of a sum. A JavaScript string is falsy exactly when it is empty.
\<close>

subsection \<open>Backend: jobs, rows and results (\<^verbatim>\<open>import.service.ts\<close>)\<close>

datatype ImportStatus = PENDING | PROCESSING | PAUSED | COMPLETED | FAILED

datatype HttpError = NotFoundException string | BadRequestException string

record BatchError =
  be_index :: int
  be_caseId :: string
  be_error :: string

record BatchResult =
  success :: int
  failed :: int
  errors :: "BatchError list"

record ImportRowDto =
  dto_caseId :: string
  dto_applicantName :: string
  dto_dob :: string
  dto_email :: "string option"
  dto_phone :: "string option"
  dto_category :: string
  dto_priority :: "string option"

record BatchImportDto =
  rows :: "ImportRowDto list"
  startIndex :: int

record CaseData =
  cd_caseId :: string
  cd_applicantName :: string
  cd_dob :: string
  cd_email :: "string option"
  cd_phone :: "string option"
  cd_category :: string
  cd_priority :: string
  cd_importJobId :: string
  cd_userId :: string

record ImportJob =
  job_id :: string
  fileName :: string
  totalRows :: int
  processedRows :: int
  successCount :: int
  failedCount :: int
  lastProcessedIndex :: int
  status :: ImportStatus
  errorData :: "BatchError list option"

text \<open>
  The server's state: the table of import jobs, keyed by job id, and the table of cases.
  The case table is a type parameter; the service reaches it through one operation,
  \<open>caseCreate\<close>, which stands for the body of the inner \<^verbatim>\<open>try\<close> of
  \<^verbatim>\<open>processBatch\<close> (create the case, then its audit log entry): it returns the
  message of the error thrown, if any, and the table afterwards. What is thrown is taken
  to be an \<^verbatim>\<open>Error\<close>, as the errors of the database client are.
\<close>

record 'db server =
  jobs :: "string \<rightharpoonup> ImportJob"
  cases :: 'db

type_synonym 'db caseCreate = "'db \<Rightarrow> CaseData \<Rightarrow> string option \<times> 'db"

text \<open>
  \<^verbatim>\<open>new Date(s)\<close> is a parameter of the model, \<open>dateYear\<close>: \<open>None\<close> when the
  date is invalid (\<^verbatim>\<open>isNaN(d.getTime())\<close>), else the value of \<^verbatim>\<open>d.getFullYear()\<close>.
\<close>

type_synonym dateYear = "string \<Rightarrow> int option"

text \<open>
  Modelled from the spec: the members of the Prisma enums \<^verbatim>\<open>Category\<close> and
  \<^verbatim>\<open>Priority\<close>, whose declaration (\<^verbatim>\<open>schema.prisma\<close>) is not among the sources.
  The spec names the closed set \<open>{TAX, LICENSE, PERMIT}\<close>, and the client validates
  against the same lists.
\<close>

definition Category_values :: "string list" where
  "Category_values = [''TAX'', ''LICENSE'', ''PERMIT'']"

definition Priority_values :: "string list" where
  "Priority_values = [''LOW'', ''MEDIUM'', ''HIGH'']"

text \<open>\<^verbatim>\<open>a || b\<close> on strings: the first operand unless it is empty.\<close>

definition orElse :: "string \<Rightarrow> string \<Rightarrow> string" where
  "orElse a b = (if a = [] then b else a)"

text \<open>\<^verbatim>\<open>hay.includes(needle)\<close>.\<close>

fun str_includes :: "string \<Rightarrow> string \<Rightarrow> bool" where
  "str_includes [] needle = (needle = [])"
| "str_includes (c # cs) needle = (prefix needle (c # cs) \<or> str_includes cs needle)"

text \<open>
  The body of the first \<^verbatim>\<open>try\<close> of \<^verbatim>\<open>processBatch\<close> for one row: the message of
  the error it throws, or the case to create.
\<close>

definition prepareCase :: "dateYear \<Rightarrow> string \<Rightarrow> string \<Rightarrow> ImportRowDto \<Rightarrow> string + CaseData" where
  "prepareCase dateYear jobId userId row =
     (if dto_caseId row = [] \<or> dto_applicantName row = [] \<or> dto_dob row = [] \<or> dto_category row = []
      then Inl ''Missing required fields''
      else if dateYear (dto_dob row) = None
      then Inl ''Invalid date format for dob''
      else if dto_category row \<notin> set Category_values
      then Inl (''Invalid category: '' @ dto_category row)
      else Inr \<lparr>cd_caseId = dto_caseId row,
                cd_applicantName = dto_applicantName row,
                cd_dob = dto_dob row,
                cd_email = (case dto_email row of None \<Rightarrow> None | Some e \<Rightarrow> if e = [] then None else Some e),
                cd_phone = (case dto_phone row of None \<Rightarrow> None | Some p \<Rightarrow> if p = [] then None else Some p),
                cd_category = dto_category row,
                cd_priority = (case dto_priority row of
                                 None \<Rightarrow> ''LOW''
                               | Some p \<Rightarrow> if p \<noteq> [] \<and> p \<in> set Priority_values then p else ''LOW''),
                cd_importJobId = jobId,
                cd_userId = userId\<rparr>)"

text \<open>
  The first loop of \<^verbatim>\<open>processBatch\<close> (\<^verbatim>\<open>for (let i = 0; i < dto.rows.length; i++)\<close>),
  from position \<open>i\<close> on: the accumulator holds \<^verbatim>\<open>caseCreations\<close> and \<^verbatim>\<open>result\<close>.
\<close>

fun prepareCases ::
  "dateYear \<Rightarrow> string \<Rightarrow> string \<Rightarrow> int \<Rightarrow> nat \<Rightarrow> ImportRowDto list \<Rightarrow> CaseData list \<times> BatchResult
     \<Rightarrow> CaseData list \<times> BatchResult" where
  "prepareCases dateYear jobId userId start i [] acc = acc"
| "prepareCases dateYear jobId userId start i (row # rest) (caseCreations, result) =
     (case prepareCase dateYear jobId userId row of
        Inr c \<Rightarrow> prepareCases dateYear jobId userId start (Suc i) rest (caseCreations @ [c], result)
      | Inl msg \<Rightarrow>
          prepareCases dateYear jobId userId start (Suc i) rest
            (caseCreations,
             result\<lparr>failed := failed result + 1,
                    errors := errors result @
                      [\<lparr>be_index = start + int i,
                        be_caseId = orElse (dto_caseId row) ''unknown'',
                        be_error = msg\<rparr>]\<rparr>))"

text \<open>
  The second loop (\<^verbatim>\<open>for (const caseData of caseCreations)\<close>), from position \<open>k\<close> of
  \<^verbatim>\<open>caseCreations\<close> on. \<^verbatim>\<open>caseCreations.indexOf(caseData)\<close> compares object
  identity and every element is an object of its own, so it is the position \<open>k\<close> of the
  iteration. The outer \<^verbatim>\<open>catch\<close> is unreachable: the inner one catches every error.
\<close>

fun createCases ::
  "'db caseCreate \<Rightarrow> int \<Rightarrow> nat \<Rightarrow> CaseData list \<Rightarrow> 'db \<times> BatchResult \<Rightarrow> 'db \<times> BatchResult" where
  "createCases create start k [] acc = acc"
| "createCases create start k (caseData # rest) (db, result) =
     (case create db caseData of
        (None, db') \<Rightarrow>
          createCases create start (Suc k) rest (db', result\<lparr>success := success result + 1\<rparr>)
      | (Some msg, db') \<Rightarrow>
          createCases create start (Suc k) rest
            (db',
             result\<lparr>failed := failed result + 1,
                    errors := errors result @
                      [\<lparr>be_index = start + int k,
                        be_caseId = cd_caseId caseData,
                        be_error = (if str_includes msg ''Unique constraint''
                                    then ''Duplicate case ID'' else msg)\<rparr>]\<rparr>))"

text \<open>
  \<^verbatim>\<open>processBatch\<close>. The update that moves a pending job to \<^verbatim>\<open>PROCESSING\<close> before
  the rows are read is overwritten by the update that ends the call, which sets the status
  in every case from the job as it was read at the start; the model keeps the last one.
\<close>

definition processBatch ::
  "dateYear \<Rightarrow> 'db caseCreate \<Rightarrow> 'db server \<Rightarrow> string \<Rightarrow> BatchImportDto \<Rightarrow> string
     \<Rightarrow> HttpError + (BatchResult \<times> 'db server)" where
  "processBatch dateYear create st jobId dto userId =
     (case jobs st jobId of
        None \<Rightarrow> Inl (NotFoundException ''Import job not found'')
      | Some job \<Rightarrow>
          if status job = COMPLETED \<or> status job = FAILED
          then Inl (BadRequestException ''Import job already completed or failed'')
          else
            let (caseCreations, result1) =
                  prepareCases dateYear jobId userId (startIndex dto) 0 (rows dto)
                    ([], \<lparr>success = 0, failed = 0, errors = []\<rparr>);
                (db', result) = createCases create (startIndex dto) 0 caseCreations (cases st, result1);
                newProcessedRows = processedRows job + int (length (rows dto));
                newSuccessCount = successCount job + success result;
                newFailedCount = failedCount job + failed result;
                isComplete = (newProcessedRows \<ge> totalRows job);
                job' = job\<lparr>processedRows := newProcessedRows,
                          successCount := newSuccessCount,
                          failedCount := newFailedCount,
                          lastProcessedIndex := startIndex dto + int (length (rows dto)) - 1,
                          status := (if isComplete then COMPLETED else PROCESSING),
                          errorData := (if errors result \<noteq> []
                                        then Some ((case errorData job of None \<Rightarrow> [] | Some es \<Rightarrow> es)
                                                   @ errors result)
                                        else errorData job)\<rparr>
            in Inr (result, st\<lparr>jobs := (jobs st)(jobId \<mapsto> job'), cases := db'\<rparr>))"

text \<open>\<^verbatim>\<open>pauseImport\<close> and \<^verbatim>\<open>resumeImport\<close>, with what they return.\<close>

record PauseResult =
  pr_message :: string
  pr_lastProcessedIndex :: int

record ResumeResult =
  rr_message :: string
  rr_lastProcessedIndex :: int
  rr_remainingRows :: int

definition pauseImport :: "'db server \<Rightarrow> string \<Rightarrow> HttpError + (PauseResult \<times> 'db server)" where
  "pauseImport st jobId =
     (case jobs st jobId of
        None \<Rightarrow> Inl (NotFoundException ''Import job not found'')
      | Some job \<Rightarrow>
          Inr (\<lparr>pr_message = ''Import paused'', pr_lastProcessedIndex = lastProcessedIndex job\<rparr>,
               st\<lparr>jobs := (jobs st)(jobId \<mapsto> job\<lparr>status := PAUSED\<rparr>)\<rparr>))"

definition resumeImport :: "'db server \<Rightarrow> string \<Rightarrow> HttpError + (ResumeResult \<times> 'db server)" where
  "resumeImport st jobId =
     (case jobs st jobId of
        None \<Rightarrow> Inl (NotFoundException ''Import job not found'')
      | Some job \<Rightarrow>
          if status job \<noteq> PAUSED
          then Inl (BadRequestException ''Import is not paused'')
          else
            Inr (\<lparr>rr_message = ''Import resumed'',
                  rr_lastProcessedIndex = lastProcessedIndex job,
                  rr_remainingRows = totalRows job - processedRows job\<rparr>,
                 st\<lparr>jobs := (jobs st)(jobId \<mapsto> job\<lparr>status := PROCESSING\<rparr>)\<rparr>))"

subsection \<open>Strings: the JavaScript operations the client uses\<close>

definition upperLetters :: string where
  "upperLetters = ''ABCDEFGHIJKLMNOPQRSTUVWXYZ''"

definition lowerLetters :: string where
  "lowerLetters = ''abcdefghijklmnopqrstuvwxyz''"

definition digits :: string where
  "digits = ''0123456789''"

definition toLowerCase :: "string \<Rightarrow> string" where
  "toLowerCase s = map (\<lambda>c. case map_of (zip upperLetters lowerLetters) c of Some d \<Rightarrow> d | None \<Rightarrow> c) s"

definition toUpperCase :: "string \<Rightarrow> string" where
  "toUpperCase s = map (\<lambda>c. case map_of (zip lowerLetters upperLetters) c of Some d \<Rightarrow> d | None \<Rightarrow> c) s"

definition isDigit :: "char \<Rightarrow> bool" where
  "isDigit c = (c \<in> set digits)"

text \<open>The class \<^verbatim>\<open>\s\<close>: tab, line feed, vertical tab, form feed, carriage return, space.\<close>

definition isSpace :: "char \<Rightarrow> bool" where
  "isSpace c = (c \<in> set [CHR 0x09, CHR 0x0A, CHR 0x0B, CHR 0x0C, CHR 0x0D, CHR 0x20])"

text \<open>\<^verbatim>\<open>s.replace(/[^a-z0-9]/g, '')\<close>.\<close>

definition stripNonAlnum :: "string \<Rightarrow> string" where
  "stripNonAlnum s = filter (\<lambda>c. c \<in> set (lowerLetters @ digits)) s"

text \<open>\<^verbatim>\<open>s.replace(/[\s()-]/g, '')\<close>.\<close>

definition stripPhonePunct :: "string \<Rightarrow> string" where
  "stripPhonePunct s = filter (\<lambda>c. \<not> (isSpace c \<or> c \<in> set ''()-'')) s"

text \<open>\<^verbatim>\<open>s.replace(/\s+/g, ' ')\<close>: every maximal run of white space becomes one space.\<close>

function collapseSpaces :: "string \<Rightarrow> string" where
  "collapseSpaces [] = []"
| "collapseSpaces (c # cs) =
     (if isSpace c then CHR '' '' # collapseSpaces (dropWhile isSpace cs)
      else c # collapseSpaces cs)"
  by pat_completeness auto
termination
  by (relation "measure length") (auto simp: length_dropWhile_le less_Suc_eq_le)

text \<open>\<^verbatim>\<open>s.trim()\<close>.\<close>

definition trim :: "string \<Rightarrow> string" where
  "trim s = rev (dropWhile isSpace (rev (dropWhile isSpace s)))"

text \<open>\<^verbatim>\<open>/^\d{10}$/\<close>.\<close>

definition tenDigits :: "string \<Rightarrow> bool" where
  "tenDigits s = (length s = 10 \<and> list_all isDigit s)"

text \<open>
  \<^verbatim>\<open>/^[^\s@]+@[^\s@]+\.[^\s@]+$/\<close>: no white space, exactly one \<^verbatim>\<open>@\<close>, something
  before it, and after it a dot that is neither its first nor its last character.
\<close>

definition emailShaped :: "string \<Rightarrow> bool" where
  "emailShaped s =
     (let local = takeWhile (\<lambda>c. c \<noteq> CHR ''@'') s;
          domain = drop (Suc (length local)) s
      in list_all (\<lambda>c. \<not> isSpace c) s \<and>
         length (filter (\<lambda>c. c = CHR ''@'') s) = 1 \<and>
         local \<noteq> [] \<and>
         CHR ''.'' \<in> set (butlast (drop 1 domain)))"

text \<open>\<^verbatim>\<open>/^\+?[1-9]\d{1,14}$/\<close>.\<close>

definition e164Shaped :: "string \<Rightarrow> bool" where
  "e164Shaped s =
     (case (case s of c # cs \<Rightarrow> if c = CHR ''+'' then cs else s | [] \<Rightarrow> s) of
        [] \<Rightarrow> False
      | d # ds \<Rightarrow> d \<in> set ''123456789'' \<and> 1 \<le> length ds \<and> length ds \<le> 14 \<and> list_all isDigit ds)"

subsection \<open>Column mapping (\<^verbatim>\<open>columnMapping.ts\<close>)\<close>

record SchemaInfo =
  label :: string
  required :: bool
  aliases :: "string list"

text \<open>\<^verbatim>\<open>SCHEMA_FIELDS\<close>, in the order of its keys; a \<^verbatim>\<open>SchemaField\<close> is a key.\<close>

type_synonym SchemaField = string

definition SCHEMA_FIELDS :: "(SchemaField \<times> SchemaInfo) list" where
  "SCHEMA_FIELDS =
     [(''case_id'', \<lparr>label = ''Case ID'', required = True,
         aliases = [''caseid'', ''case_number'', ''case_no'', ''id'', ''case'', ''reference'', ''ref'']\<rparr>),
      (''applicant_name'', \<lparr>label = ''Applicant Name'', required = True,
         aliases = [''name'', ''applicant'', ''full_name'', ''fullname'', ''person'', ''client'', ''customer'']\<rparr>),
      (''dob'', \<lparr>label = ''Date of Birth'', required = True,
         aliases = [''date_of_birth'', ''dateofbirth'', ''birth_date'', ''birthdate'', ''birthday'', ''born'']\<rparr>),
      (''email'', \<lparr>label = ''Email'', required = False,
         aliases = [''email_address'', ''emailaddress'', ''e-mail'', ''mail'']\<rparr>),
      (''phone'', \<lparr>label = ''Phone'', required = False,
         aliases = [''phone_number'', ''phonenumber'', ''telephone'', ''tel'', ''mobile'', ''cell'', ''contact'']\<rparr>),
      (''category'', \<lparr>label = ''Category'', required = True,
         aliases = [''type'', ''case_type'', ''casetype'', ''cat'', ''classification'']\<rparr>),
      (''priority'', \<lparr>label = ''Priority'', required = False,
         aliases = [''prio'', ''urgency'', ''importance'', ''level'']\<rparr>)]"

record ColumnMapping =
  csvColumn :: string
  schemaField :: "SchemaField option"
  confidence :: rat
  isAutoMapped :: bool

text \<open>
  \<^verbatim>\<open>levenshteinDistance\<close>: the matrix is built row by row. \<open>levRow bc a prev left\<close> is
  row \<open>i\<close> from column \<open>j\<close> on, for the character \<open>bc = b.charAt(i - 1)\<close>: \<open>a\<close> is the
  rest of the first string from \<open>a.charAt(j - 1)\<close>, \<open>prev\<close> the row above from column
  \<open>j - 1\<close>, and \<open>left\<close> the entry \<open>matrix[i][j - 1]\<close>.
\<close>

fun levRow :: "char \<Rightarrow> string \<Rightarrow> nat list \<Rightarrow> nat \<Rightarrow> nat list" where
  "levRow bc (ac # as) (diag # up # prev) left =
     (let v = (if bc = ac then diag else min (min (diag + 1) (left + 1)) (up + 1))
      in v # levRow bc as (up # prev) v)"
| "levRow bc as prev left = []"

fun levRows :: "string \<Rightarrow> string \<Rightarrow> nat list \<Rightarrow> nat \<Rightarrow> nat list" where
  "levRows a [] prev i = prev"
| "levRows a (bc # bs) prev i = levRows a bs (i # levRow bc a prev i) (Suc i)"

definition levenshteinDistance :: "string \<Rightarrow> string \<Rightarrow> nat" where
  "levenshteinDistance a b = last (levRows a b [0..<Suc (length a)] 1)"

text \<open>
  \<^verbatim>\<open>similarity\<close>. The score is a JavaScript number; the model computes it exactly, as a
  rational.
\<close>

definition similarity :: "string \<Rightarrow> string \<Rightarrow> rat" where
  "similarity str1 str2 =
     (let s1 = stripNonAlnum (toLowerCase str1);
          s2 = stripNonAlnum (toLowerCase str2)
      in if s1 = s2 then 1
         else
           let longer = (if length s1 > length s2 then s1 else s2);
               shorter = (if length s1 > length s2 then s2 else s1)
           in if length longer = 0 then 1
              else if str_includes longer shorter \<or> str_includes shorter longer then 9 / 10
              else 1 - of_nat (levenshteinDistance s1 s2) / of_nat (max (length s1) (length s2)))"

text \<open>
  \<^verbatim>\<open>findBestMatch\<close>: the comparisons of one field, in the order of the source (the key,
  the label, then each alias); a later score replaces the best one only when it is
  strictly greater.
\<close>

definition better :: "string \<Rightarrow> SchemaField \<Rightarrow> SchemaField option \<times> rat \<Rightarrow> string
    \<Rightarrow> SchemaField option \<times> rat" where
  "better csvHeader field best name =
     (if similarity csvHeader name > snd best then (Some field, similarity csvHeader name) else best)"

definition matchField :: "string \<Rightarrow> SchemaField option \<times> rat \<Rightarrow> SchemaField \<times> SchemaInfo
    \<Rightarrow> SchemaField option \<times> rat" where
  "matchField csvHeader best fs =
     foldl (better csvHeader (fst fs)) best (fst fs # label (snd fs) # aliases (snd fs))"

definition findBestMatch :: "string \<Rightarrow> SchemaField list \<Rightarrow> SchemaField option \<times> rat" where
  "findBestMatch csvHeader availableFields =
     (let best = foldl (matchField csvHeader) (None, 0)
                   (map (\<lambda>f. (f, the (map_of SCHEMA_FIELDS f))) availableFields)
      in if snd best \<ge> 6 / 10 then best else (None, 0))"

record Candidate =
  cnd_csvColumn :: string
  cnd_field :: "SchemaField option"
  cnd_confidence :: rat

text \<open>\<^verbatim>\<open>xs.findIndex(p)\<close>; \<open>None\<close> stands for \<open>-1\<close>.\<close>

fun findIndex :: "('a \<Rightarrow> bool) \<Rightarrow> 'a list \<Rightarrow> nat option" where
  "findIndex p [] = None"
| "findIndex p (x # xs) = (if p x then Some 0 else map_option Suc (findIndex p xs))"

text \<open>
  One round of the assignment loop of \<^verbatim>\<open>autoMapColumns\<close>, on \<^verbatim>\<open>usedFields\<close> and
  \<^verbatim>\<open>candidates\<close>. The index is never \<open>-1\<close> (where the source would write a stray
  property, or raise a \<^verbatim>\<open>TypeError\<close> in the second branch): every sorted candidate
  came from \<^verbatim>\<open>candidates\<close>, whose column names never change.
\<close>

definition assignStep :: "SchemaField set \<times> Candidate list \<Rightarrow> Candidate \<Rightarrow> SchemaField set \<times> Candidate list" where
  "assignStep s candidate =
     (let usedFields = fst s; candidates = snd s;
          idx = findIndex (\<lambda>c. cnd_csvColumn c = cnd_csvColumn candidate) candidates;
          otherwise =
            (case idx of
               None \<Rightarrow> s
             | Some i \<Rightarrow>
                 (case cnd_field (candidates ! i) of
                    Some g \<Rightarrow>
                      if g \<in> usedFields
                      then (usedFields,
                            candidates[i := candidate\<lparr>cnd_field := None, cnd_confidence := 0\<rparr>])
                      else s
                  | None \<Rightarrow> s))
      in case cnd_field candidate of
           Some f \<Rightarrow>
             if f \<notin> usedFields
             then (insert f usedFields,
                   (case idx of None \<Rightarrow> candidates | Some i \<Rightarrow> candidates[i := candidate]))
             else otherwise
         | None \<Rightarrow> otherwise)"

text \<open>
  The first loop of \<^verbatim>\<open>autoMapColumns\<close>: the best match of every header among the
  fields that \<^verbatim>\<open>usedFields\<close> does not hold. Nothing is added to \<^verbatim>\<open>usedFields\<close> in this
  loop, so the set is the same for every header.
\<close>

definition proposeCandidates :: "SchemaField set \<Rightarrow> string list \<Rightarrow> Candidate list" where
  "proposeCandidates usedFields csvHeaders =
     map (\<lambda>header.
            let availableFields = filter (\<lambda>f. f \<notin> usedFields) (map fst SCHEMA_FIELDS);
                m = findBestMatch header availableFields
            in \<lparr>cnd_csvColumn = header, cnd_field = fst m, cnd_confidence = snd m\<rparr>)
       csvHeaders"

text \<open>The last loop of \<^verbatim>\<open>autoMapColumns\<close>, for one candidate.\<close>

definition buildMapping :: "SchemaField set \<Rightarrow> Candidate \<Rightarrow> ColumnMapping" where
  "buildMapping usedFields candidate =
     (case cnd_field candidate of
        Some f \<Rightarrow>
          if f \<in> usedFields
          then \<lparr>csvColumn = cnd_csvColumn candidate, schemaField = Some f,
                confidence = cnd_confidence candidate, isAutoMapped = True\<rparr>
          else \<lparr>csvColumn = cnd_csvColumn candidate, schemaField = None,
                confidence = 0, isAutoMapped = False\<rparr>
      | None \<Rightarrow>
          \<lparr>csvColumn = cnd_csvColumn candidate, schemaField = None,
           confidence = 0, isAutoMapped = False\<rparr>)"

text \<open>
  \<^verbatim>\<open>autoMapColumns\<close>. The sort of JavaScript is stable, as \<open>sort_key\<close> is; the
  comparator \<^verbatim>\<open>b.confidence - a.confidence\<close> orders by descending confidence.
\<close>

definition autoMapColumns :: "string list \<Rightarrow> ColumnMapping list" where
  "autoMapColumns csvHeaders =
     (let usedFields0 = {};
          candidates0 = proposeCandidates usedFields0 csvHeaders;
          sortedCandidates = sort_key (\<lambda>c. - cnd_confidence c) candidates0;
          (usedFields, candidates) = foldl assignStep (usedFields0, candidates0) sortedCandidates
      in map (buildMapping usedFields) candidates)"

text \<open>
  The invariant of the assignment loop when the column names are pairwise distinct, \<open>rest\<close>
  being the sorted candidates still to come: a candidate still to come sits unchanged in
  its slot, and the slots of the others hold pairwise distinct fields, which are exactly
  the fields of \<^verbatim>\<open>usedFields\<close>.
\<close>

definition assignInv :: "SchemaField set \<Rightarrow> Candidate list \<Rightarrow> Candidate list \<Rightarrow> bool" where
  "assignInv used cands rest \<longleftrightarrow>
     distinct (map cnd_csvColumn cands) \<and> distinct (map cnd_csvColumn rest) \<and>
     set rest \<subseteq> set cands \<and>
     (\<forall>x\<in>set cands. cnd_csvColumn x \<notin> cnd_csvColumn ` set rest \<longrightarrow>
        (\<forall>f. cnd_field x = Some f \<longrightarrow> f \<in> used)) \<and>
     (\<forall>x\<in>set cands. \<forall>y\<in>set cands. \<forall>g.
        cnd_csvColumn x \<notin> cnd_csvColumn ` set rest \<and> cnd_csvColumn y \<notin> cnd_csvColumn ` set rest \<and>
        cnd_field x = Some g \<and> cnd_field y = Some g \<longrightarrow> x = y) \<and>
     (\<forall>f\<in>used. \<exists>x\<in>set cands. cnd_csvColumn x \<notin> cnd_csvColumn ` set rest \<and> cnd_field x = Some f)"

subsection \<open>Validation (\<^verbatim>\<open>validation.ts\<close>)\<close>

record CaseRow =
  row_id :: "string option"
  case_id :: "string option"
  applicant_name :: "string option"
  dob :: "string option"
  email :: "string option"
  phone :: "string option"
  category :: "string option"
  priority :: "string option"

record ValidationError =
  ve_field :: string
  ve_message :: string
  ve_value :: "string option"
  ve_suggestion :: "string option"

text \<open>\<^verbatim>\<open>row[field]\<close> for the keys of the schema (\<^verbatim>\<open>_id\<close> is the field \<open>row_id\<close>).\<close>

definition rowField :: "CaseRow \<Rightarrow> string \<Rightarrow> string option" where
  "rowField row field =
     (if field = ''case_id'' then case_id row
      else if field = ''applicant_name'' then applicant_name row
      else if field = ''dob'' then dob row
      else if field = ''email'' then email row
      else if field = ''phone'' then phone row
      else if field = ''category'' then category row
      else if field = ''priority'' then priority row
      else None)"

text \<open>\<^verbatim>\<open>row._id || ''\<close>.\<close>

definition rowId :: "CaseRow \<Rightarrow> string" where
  "rowId row = (case row_id row of None \<Rightarrow> [] | Some s \<Rightarrow> s)"

text \<open>
  The refinement of \<^verbatim>\<open>dob\<close>: the date parses and its year lies between 1900 and the
  year of the clock, \<^verbatim>\<open>new Date().getFullYear()\<close>, a parameter of the model.
\<close>

definition dobInRange :: "dateYear \<Rightarrow> int \<Rightarrow> string \<Rightarrow> bool" where
  "dobInRange dateYear currentYear date =
     (case dateYear date of None \<Rightarrow> False | Some year \<Rightarrow> year \<ge> 1900 \<and> year \<le> currentYear)"

text \<open>
  The message zod gives an enum value outside the enum when the schema sets none:
  \<^verbatim>\<open>Invalid enum value. Expected 'LOW' | 'MEDIUM' | 'HIGH', received 'x'\<close>.
\<close>

definition quoted :: "string \<Rightarrow> string" where
  "quoted s = [CHR 0x27] @ s @ [CHR 0x27]"

fun joinValues :: "string list \<Rightarrow> string" where
  "joinValues [] = []"
| "joinValues [v] = quoted v"
| "joinValues (v # vs) = quoted v @ '' | '' @ joinValues vs"

definition invalidEnumValue :: "string list \<Rightarrow> string \<Rightarrow> string" where
  "invalidEnumValue options received =
     ''Invalid enum value. Expected '' @ joinValues options @ '', received '' @ quoted received"

text \<open>
  \<^verbatim>\<open>caseSchema.parse(row)\<close>: the issues zod reports, each with the key it is about
  (\<^verbatim>\<open>issue.path[0]\<close>) and its message, key by key in the order of the schema.

  \<^verbatim>\<open>z.string().min(1, message)\<close>: a key that is \<^verbatim>\<open>undefined\<close> gives \<^verbatim>\<open>Required\<close>.
\<close>

definition requiredString :: "string \<Rightarrow> string \<Rightarrow> string option \<Rightarrow> (string \<times> string) list" where
  "requiredString key message v =
     (case v of
        None \<Rightarrow> [(key, ''Required'')]
      | Some s \<Rightarrow> if length s < 1 then [(key, message)] else [])"

text \<open>\<^verbatim>\<open>dob\<close>: a string that fails \<^verbatim>\<open>min(1)\<close> is still handed to the refinement.\<close>

definition dobIssues :: "dateYear \<Rightarrow> int \<Rightarrow> string option \<Rightarrow> (string \<times> string) list" where
  "dobIssues dateYear currentYear v =
     (case v of
        None \<Rightarrow> [(''dob'', ''Required'')]
      | Some s \<Rightarrow>
          (if length s < 1 then [(''dob'', ''Date of birth is required'')] else [])
          @ (if dobInRange dateYear currentYear s then []
             else [(''dob'', ''Invalid date (must be between 1900 and today)'')]))"

text \<open>\<^verbatim>\<open>email\<close> and \<^verbatim>\<open>phone\<close>: \<^verbatim>\<open>optional()\<close> lets \<^verbatim>\<open>undefined\<close> through to the refinement.\<close>

definition emailIssues :: "string option \<Rightarrow> (string \<times> string) list" where
  "emailIssues v =
     (if (case v of None \<Rightarrow> True | Some s \<Rightarrow> s = [] \<or> emailShaped s) then []
      else [(''email'', ''Invalid email format'')])"

definition phoneIssues :: "string option \<Rightarrow> (string \<times> string) list" where
  "phoneIssues v =
     (if (case v of None \<Rightarrow> True | Some s \<Rightarrow> s = [] \<or> e164Shaped (stripPhonePunct s)) then []
      else [(''phone'', ''Invalid phone format (use E.164)'')])"

text \<open>\<^verbatim>\<open>category\<close>: the \<^verbatim>\<open>errorMap\<close> gives its message to every issue of the key.\<close>

definition categoryIssues :: "string option \<Rightarrow> (string \<times> string) list" where
  "categoryIssues v =
     (if (case v of None \<Rightarrow> False | Some s \<Rightarrow> s \<in> set [''TAX'', ''LICENSE'', ''PERMIT'']) then []
      else [(''category'', ''Category must be TAX, LICENSE, or PERMIT'')])"

text \<open>\<^verbatim>\<open>priority\<close>: \<^verbatim>\<open>default('LOW')\<close> replaces \<^verbatim>\<open>undefined\<close> only.\<close>

definition priorityIssues :: "string option \<Rightarrow> (string \<times> string) list" where
  "priorityIssues v =
     (case v of
        None \<Rightarrow> []
      | Some s \<Rightarrow>
          if s \<in> set [''LOW'', ''MEDIUM'', ''HIGH''] then []
          else [(''priority'', invalidEnumValue [''LOW'', ''MEDIUM'', ''HIGH''] s)])"

definition caseSchema :: "dateYear \<Rightarrow> int \<Rightarrow> CaseRow \<Rightarrow> (string \<times> string) list" where
  "caseSchema dateYear currentYear row =
     requiredString ''case_id'' ''Case ID is required'' (case_id row)
     @ requiredString ''applicant_name'' ''Applicant name is required'' (applicant_name row)
     @ dobIssues dateYear currentYear (dob row)
     @ emailIssues (email row)
     @ phoneIssues (phone row)
     @ categoryIssues (category row)
     @ priorityIssues (priority row)"

definition getSuggestion :: "string \<Rightarrow> string option \<Rightarrow> string option" where
  "getSuggestion field v =
     (case v of
        None \<Rightarrow> None
      | Some val \<Rightarrow>
          if field = ''applicant_name''
          then (if str_includes val ''  '' then Some (trim (collapseSpaces val)) else None)
          else if field = ''phone''
          then (let cleaned = stripPhonePunct val
                in if tenDigits cleaned then Some (''+91'' @ cleaned) else None)
          else if field = ''category''
          then (let upper = toUpperCase val
                in if upper \<in> set [''TAX'', ''LICENSE'', ''PERMIT''] then Some upper else None)
          else if field = ''priority''
          then (let upperPriority = toUpperCase val
                in if upperPriority \<in> set [''LOW'', ''MEDIUM'', ''HIGH''] then Some upperPriority
                   else if val = [] then Some ''LOW'' else None)
          else None)"

definition validateRow :: "dateYear \<Rightarrow> int \<Rightarrow> CaseRow \<Rightarrow> ValidationError list" where
  "validateRow dateYear currentYear row =
     map (\<lambda>(field, message).
            \<lparr>ve_field = field, ve_message = message, ve_value = rowField row field,
             ve_suggestion = getSuggestion field (rowField row field)\<rparr>)
       (caseSchema dateYear currentYear row)"

definition duplicateError :: "string \<Rightarrow> ValidationError" where
  "duplicateError c =
     \<lparr>ve_field = ''case_id'', ve_message = ''Duplicate case ID in file'', ve_value = Some c,
      ve_suggestion = None\<rparr>"

text \<open>One round of the loop of \<^verbatim>\<open>validateAllRows\<close>, on \<^verbatim>\<open>errorsMap\<close> and \<^verbatim>\<open>seenCaseIds\<close>.\<close>

definition validateStep ::
  "dateYear \<Rightarrow> int \<Rightarrow> (string \<rightharpoonup> ValidationError list) \<times> string set \<Rightarrow> CaseRow
     \<Rightarrow> (string \<rightharpoonup> ValidationError list) \<times> string set" where
  "validateStep dateYear currentYear s row =
     (let errorsMap = fst s; seenCaseIds = snd s;
          rid = rowId row;
          errors0 = validateRow dateYear currentYear row;
          tracked = (case case_id row of None \<Rightarrow> False | Some c \<Rightarrow> c \<noteq> []);
          errors1 = (if tracked \<and> the (case_id row) \<in> seenCaseIds
                     then errors0 @ [duplicateError (the (case_id row))] else errors0);
          seenCaseIds' = (if tracked then insert (the (case_id row)) seenCaseIds else seenCaseIds)
      in (if errors1 \<noteq> [] then errorsMap(rid \<mapsto> errors1) else errorsMap, seenCaseIds'))"

definition validateAllRows :: "dateYear \<Rightarrow> int \<Rightarrow> CaseRow list \<Rightarrow> (string \<rightharpoonup> ValidationError list)" where
  "validateAllRows dateYear currentYear rs =
     fst (foldl (validateStep dateYear currentYear) (Map.empty, {}) rs)"

subsection \<open>Ingestion (\<^verbatim>\<open>csvParser.ts\<close>)\<close>

text \<open>\<^verbatim>\<open>a || b || ... || d\<close> on strings that may be undefined, \<open>d\<close> the last operand.\<close>

fun firstTruthy :: "string option list \<Rightarrow> string \<Rightarrow> string" where
  "firstTruthy [] d = d"
| "firstTruthy (None # vs) d = firstTruthy vs d"
| "firstTruthy (Some v # vs) d = (if v = [] then firstTruthy vs d else v)"

text \<open>The decimal digits of an index, as the template \<^verbatim>\<open>`row-${index}`\<close> prints it.\<close>

function showNat :: "nat \<Rightarrow> string" where
  "showNat n = (if n < 10 then [digits ! n] else showNat (n div 10) @ [digits ! (n mod 10)])"
  by pat_completeness auto
termination
  by (relation "measure id") auto

text \<open>
  The row \<^verbatim>\<open>parseCSV\<close> makes of record \<open>index\<close> of the parsed file, \<open>row\<close> mapping each
  header to the cell under it.
\<close>

definition parseCSV_row :: "nat \<Rightarrow> (string \<rightharpoonup> string) \<Rightarrow> CaseRow" where
  "parseCSV_row index row =
     \<lparr>row_id = Some (''row-'' @ showNat index),
      case_id = Some (firstTruthy [row ''case_id'', row ''caseid''] []),
      applicant_name = Some (firstTruthy [row ''applicant_name'', row ''applicantname'', row ''name''] []),
      dob = Some (firstTruthy [row ''dob'', row ''date_of_birth'', row ''dateofbirth''] []),
      email = Some (firstTruthy [row ''email''] []),
      phone = Some (firstTruthy [row ''phone'', row ''telephone'', row ''mobile''] []),
      category = Some (toUpperCase (firstTruthy [row ''category''] [])),
      priority = Some (toUpperCase (firstTruthy [row ''priority''] ''LOW''))\<rparr>"

subsection \<open>The client store (\<^verbatim>\<open>importStore.ts\<close>)\<close>

datatype RowStatus = Pending | Valid | Invalid | Submitting | Success | Failed

text \<open>The part of \<^verbatim>\<open>ImportState\<close> that validation reads and writes.\<close>

record ImportState =
  mappedData :: "CaseRow list"
  validationErrors :: "string \<rightharpoonup> ValidationError list"
  rowStatuses :: "string \<rightharpoonup> RowStatus"

definition setValidationErrors :: "(string \<rightharpoonup> ValidationError list) \<Rightarrow> ImportState \<Rightarrow> ImportState" where
  "setValidationErrors errs st =
     st\<lparr>validationErrors := errs,
        rowStatuses :=
          foldl (\<lambda>statuses row.
                   let rid = rowId row;
                       hasErrors = (case errs rid of None \<Rightarrow> False | Some es \<Rightarrow> length es > 0)
                   in statuses(rid \<mapsto> (if hasErrors then Invalid else Valid)))
            (rowStatuses st) (mappedData st)\<rparr>"

definition updateRowStatus :: "string \<Rightarrow> RowStatus \<Rightarrow> ImportState \<Rightarrow> ImportState" where
  "updateRowStatus rid s st = st\<lparr>rowStatuses := (rowStatuses st)(rid \<mapsto> s)\<rparr>"

text \<open>
  The revalidation pass of \<^verbatim>\<open>ValidatePage\<close> (the effect that runs when \<^verbatim>\<open>mappedData\<close>
  changes): validate the current dataset and store the result.
\<close>

definition revalidate :: "dateYear \<Rightarrow> int \<Rightarrow> ImportState \<Rightarrow> ImportState" where
  "revalidate dateYear currentYear st =
     (if length (mappedData st) > 0
      then setValidationErrors (validateAllRows dateYear currentYear (mappedData st)) st
      else st)"

subsection \<open>Submission (\<^verbatim>\<open>importStore.submitBatch\<close>, \<^verbatim>\<open>ValidatePage.handleSubmit\<close>)\<close>

text \<open>
  The row \<^verbatim>\<open>submitBatch\<close> puts in the request for a row of the dataset. A key that is
  \<^verbatim>\<open>undefined\<close> is left out of the request, and the service reads a required key
  that is absent as it reads the empty string (both are falsy), so it is the empty string
  here. The framework's validation of the request body is not part of the model.
\<close>

definition toImportRow :: "CaseRow \<Rightarrow> ImportRowDto" where
  "toImportRow row =
     \<lparr>dto_caseId = (case case_id row of None \<Rightarrow> [] | Some s \<Rightarrow> s),
      dto_applicantName = (case applicant_name row of None \<Rightarrow> [] | Some s \<Rightarrow> s),
      dto_dob = (case dob row of None \<Rightarrow> [] | Some s \<Rightarrow> s),
      dto_email = (case email row of None \<Rightarrow> None | Some s \<Rightarrow> if s = [] then None else Some s),
      dto_phone = (case phone row of None \<Rightarrow> None | Some s \<Rightarrow> if s = [] then None else Some s),
      dto_category = (case category row of None \<Rightarrow> [] | Some s \<Rightarrow> s),
      dto_priority = Some (case priority row of None \<Rightarrow> ''LOW'' | Some s \<Rightarrow> orElse s ''LOW'')\<rparr>"

text \<open>
  The submission loop of \<^verbatim>\<open>handleSubmit\<close>, as the server sees it: from offset \<open>i\<close>,
  the slice \<^verbatim>\<open>validRows.slice(i, i + batchSize)\<close> is posted with \<^verbatim>\<open>startIndex = i\<close>,
  one request after the other; a request that fails ends the loop (the \<^verbatim>\<open>catch\<close> of
  \<^verbatim>\<open>handleSubmit\<close>). What \<^verbatim>\<open>submitBatch\<close> records in the client store of each
  response has no effect on the requests and is left out.
\<close>

definition batchSize :: nat where
  "batchSize = 100"

function submitBatches ::
  "dateYear \<Rightarrow> 'db caseCreate \<Rightarrow> string \<Rightarrow> string \<Rightarrow> CaseRow list \<Rightarrow> nat \<Rightarrow> 'db server
     \<Rightarrow> HttpError + 'db server" where
  "submitBatches dateYear create jobId userId validRows i st =
     (if i < length validRows
      then (case processBatch dateYear create st jobId
                   \<lparr>rows = map toImportRow (take batchSize (drop i validRows)), startIndex = int i\<rparr>
                   userId of
              Inl e \<Rightarrow> Inl e
            | Inr (r, st') \<Rightarrow> submitBatches dateYear create jobId userId validRows (i + batchSize) st')
      else Inr st)"
  by pat_completeness auto
termination
  by (relation "measure (\<lambda>(dateYear, create, jobId, userId, validRows, i, st). length validRows - i)")
     (auto simp: batchSize_def)

subsection \<open>Instances of the parameters, for evaluating examples\<close>

text \<open>
  An instance of \<open>dateYear\<close>: the date-only form \<^verbatim>\<open>YYYY-MM-DD\<close> that every engine
  reads, with the year as seen at UTC; any other string counts as an invalid date.
\<close>

definition digitVal :: "char \<Rightarrow> int" where
  "digitVal c = int (of_char c) - 48"

definition decimal :: "string \<Rightarrow> int" where
  "decimal ds = foldl (\<lambda>n c. 10 * n + digitVal c) 0 ds"

definition exampleDateYear :: dateYear where
  "exampleDateYear s =
     (if length s = 10 \<and> s ! 4 = CHR ''-'' \<and> s ! 7 = CHR ''-''
         \<and> list_all isDigit (take 4 s @ take 2 (drop 5 s) @ drop 8 s)
      then (let y = decimal (take 4 s); m = decimal (take 2 (drop 5 s)); d = decimal (drop 8 s);
                leap = (y mod 4 = 0 \<and> (y mod 100 \<noteq> 0 \<or> y mod 400 = 0));
                days = (if m = 2 then (if leap then 29 else 28)
                        else if m \<in> {4, 6, 9, 11} then 30 else 31)
            in if 1 \<le> m \<and> m \<le> 12 \<and> 1 \<le> d \<and> d \<le> days then Some y else None)
      else None)"

text \<open>
  An instance of the case table: the case identifiers stored so far, with the unique index
  on \<^verbatim>\<open>caseId\<close> as the only cause of failure; the message is the one Prisma gives.
\<close>

definition uniqueCreate :: "string list caseCreate" where
  "uniqueCreate db c =
     (if cd_caseId c \<in> set db
      then (Some ''Unique constraint failed on the fields: (`caseId`)'', db)
      else (None, db @ [cd_caseId c]))"

text \<open>A valid row of a request, a job with nothing processed, and a server holding that job.\<close>

definition example_row :: ImportRowDto where
  "example_row =
     \<lparr>dto_caseId = ''C-1001'', dto_applicantName = ''John Doe'', dto_dob = ''1990-01-01'',
      dto_email = Some ''john@example.com'', dto_phone = Some ''+12025551234'',
      dto_category = ''TAX'', dto_priority = Some ''HIGH''\<rparr>"

definition example_job :: "int \<Rightarrow> ImportStatus \<Rightarrow> ImportJob" where
  "example_job n s =
     \<lparr>job_id = ''job-1'', fileName = ''cases.csv'', totalRows = n, processedRows = 0,
      successCount = 0, failedCount = 0, lastProcessedIndex = 0, status = s, errorData = None\<rparr>"

definition example_server :: "int \<Rightarrow> ImportStatus \<Rightarrow> string list \<Rightarrow> string list server" where
  "example_server n s stored = \<lparr>jobs = [''job-1'' \<mapsto> example_job n s], cases = stored\<rparr>"

text \<open>
  Rows of the dataset: the valid row of the end-to-end test, the two rows of the scenarios
  of the spec (the first also as the record of cells that \<^verbatim>\<open>parseCSV\<close> reads), and a
  store whose only row has been submitted with success.
\<close>

definition good_row :: CaseRow where
  "good_row =
     \<lparr>row_id = Some ''row-0'', case_id = Some ''C-1001'', applicant_name = Some ''John Doe'',
      dob = Some ''1990-01-01'', email = Some ''john@example.com'', phone = Some ''+12025551234'',
      category = Some ''TAX'', priority = Some ''HIGH''\<rparr>"

definition scenario_row :: CaseRow where
  "scenario_row =
     \<lparr>row_id = None, case_id = Some ''C-1001'', applicant_name = Some ''John  Doe'',
      dob = Some ''1990-01-01'', email = Some ''john@example.com'', phone = Some ''9876543210'',
      category = Some ''TAX'', priority = Some ''''\<rparr>"

definition scenario_record :: "string \<rightharpoonup> string" where
  "scenario_record =
     [''case_id'' \<mapsto> ''C-1001'', ''applicant_name'' \<mapsto> ''John  Doe'', ''dob'' \<mapsto> ''1990-01-01'',
      ''email'' \<mapsto> ''john@example.com'', ''phone'' \<mapsto> ''9876543210'', ''category'' \<mapsto> ''TAX'',
      ''priority'' \<mapsto> '''']"

definition broken_row :: CaseRow where
  "broken_row =
     \<lparr>row_id = None, case_id = Some '''', applicant_name = Some '''', dob = Some ''2099-01-01'',
      email = None, phone = None, category = Some ''INVALID'', priority = None\<rparr>"

definition submitted_state :: ImportState where
  "submitted_state =
     updateRowStatus ''row-0'' Success
       \<lparr>mappedData = [good_row], validationErrors = Map.empty, rowStatuses = [''row-0'' \<mapsto> Valid]\<rparr>"

section \<open>Properties\<close>

text \<open>The definitions that evaluating an example unfolds.\<close>

lemmas string_defs = stripNonAlnum_def toLowerCase_def toUpperCase_def lowerLetters_def
  upperLetters_def digits_def isDigit_def isSpace_def stripPhonePunct_def trim_def tenDigits_def
  emailShaped_def e164Shaped_def

lemmas validate_defs = validateRow_def caseSchema_def requiredString_def dobIssues_def emailIssues_def
  phoneIssues_def categoryIssues_def priorityIssues_def getSuggestion_def rowField_def
  dobInRange_def invalidEnumValue_def quoted_def

lemmas date_defs = exampleDateYear_def decimal_def digitVal_def

lemmas validateAll_defs = validateAllRows_def validateStep_def rowId_def duplicateError_def

subsection \<open>Batch import\<close>

lemma processBatch_accepted:
  assumes "jobs st jobId = Some job" and "status job \<noteq> COMPLETED" and "status job \<noteq> FAILED"
  shows "\<exists>res st' job'.
           processBatch dateYear create st jobId dto userId = Inr (res, st') \<and>
           jobs st' jobId = Some job' \<and>
           totalRows job' = totalRows job \<and>
           processedRows job' = processedRows job + int (length (rows dto)) \<and>
           successCount job' = successCount job + success res \<and>
           failedCount job' = failedCount job + failed res \<and>
           lastProcessedIndex job' = startIndex dto + int (length (rows dto)) - 1 \<and>
           status job' = (if processedRows job' \<ge> totalRows job then COMPLETED else PROCESSING)"
proof -
  obtain cs r1 where p: "prepareCases dateYear jobId userId (startIndex dto) 0 (rows dto)
      ([], \<lparr>success = 0, failed = 0, errors = []\<rparr>) = (cs, r1)"
    by (cases "prepareCases dateYear jobId userId (startIndex dto) 0 (rows dto)
      ([], \<lparr>success = 0, failed = 0, errors = []\<rparr>)")
  obtain db' res where c: "createCases create (startIndex dto) 0 cs (cases st, r1) = (db', res)"
    by (cases "createCases create (startIndex dto) 0 cs (cases st, r1)")
  define job' where "job' = job\<lparr>processedRows := processedRows job + int (length (rows dto)),
       successCount := successCount job + success res,
       failedCount := failedCount job + failed res,
       lastProcessedIndex := startIndex dto + int (length (rows dto)) - 1,
       status := (if processedRows job + int (length (rows dto)) \<ge> totalRows job
                  then COMPLETED else PROCESSING),
       errorData := (if errors res \<noteq> []
                     then Some ((case errorData job of None \<Rightarrow> [] | Some es \<Rightarrow> es) @ errors res)
                     else errorData job)\<rparr>"
  have "processBatch dateYear create st jobId dto userId =
          Inr (res, st\<lparr>jobs := (jobs st)(jobId \<mapsto> job'), cases := db'\<rparr>)"
    using assms p c by (simp add: processBatch_def Let_def job'_def)
  moreover have "jobs (st\<lparr>jobs := (jobs st)(jobId \<mapsto> job'), cases := db'\<rparr>) jobId = Some job'"
    by simp
  moreover have "totalRows job' = totalRows job"
    and "processedRows job' = processedRows job + int (length (rows dto))"
    and "successCount job' = successCount job + success res"
    and "failedCount job' = failedCount job + failed res"
    and "lastProcessedIndex job' = startIndex dto + int (length (rows dto)) - 1"
    and "status job' = (if processedRows job' \<ge> totalRows job then COMPLETED else PROCESSING)"
    by (simp_all add: job'_def)
  ultimately show ?thesis by blast
qed


text \<open>
  Claim C1. A chunk sent to a job that exists and is neither completed nor failed is
  accepted, and the job's counters move additively: \<open>processedRows\<close> grows by the number
  of rows of the chunk, \<open>successCount\<close> and \<open>failedCount\<close> by the counts of the returned
  result, \<open>lastProcessedIndex\<close> becomes \<open>startIndex + length - 1\<close>, and the status is
  \<open>COMPLETED\<close> exactly when the new \<open>processedRows\<close> has reached \<open>totalRows\<close>, else
  \<open>PROCESSING\<close>. For a set of 250 rows and a job of 250 rows with nothing processed, the
  three chunks of 100 at 0, 100 and 200 are all accepted, they are what the submission loop
  sends, and after the third the job has 250 processed rows and is \<open>COMPLETED\<close>.
\<close>

theorem processBatch_counters:
  assumes "jobs st jobId = Some job" and "status job \<noteq> COMPLETED" and "status job \<noteq> FAILED"
  shows "(\<exists>res st' job'.
            processBatch dateYear create st jobId dto userId = Inr (res, st') \<and>
            jobs st' jobId = Some job' \<and>
            processedRows job' = processedRows job + int (length (rows dto)) \<and>
            successCount job' = successCount job + success res \<and>
            failedCount job' = failedCount job + failed res \<and>
            lastProcessedIndex job' = startIndex dto + int (length (rows dto)) - 1 \<and>
            status job' = (if processedRows job' \<ge> totalRows job then COMPLETED else PROCESSING)) \<and>
         (length rs = 250 \<and> totalRows job = 250 \<and> processedRows job = 0 \<longrightarrow>
           (\<exists>r1 st1 r2 st2 r3 st3 job3.
              processBatch dateYear create st jobId \<lparr>rows = map toImportRow (take 100 rs), startIndex = 0\<rparr> userId
                = Inr (r1, st1) \<and>
              processBatch dateYear create st1 jobId \<lparr>rows = map toImportRow (take 100 (drop 100 rs)), startIndex = 100\<rparr> userId
                = Inr (r2, st2) \<and>
              processBatch dateYear create st2 jobId \<lparr>rows = map toImportRow (take 100 (drop 200 rs)), startIndex = 200\<rparr> userId
                = Inr (r3, st3) \<and>
              submitBatches dateYear create jobId userId rs 0 st = Inr st3 \<and>
              jobs st3 jobId = Some job3 \<and> processedRows job3 = 250 \<and> status job3 = COMPLETED))"
proof (intro conjI impI)
  show "\<exists>res st' job'.
            processBatch dateYear create st jobId dto userId = Inr (res, st') \<and>
            jobs st' jobId = Some job' \<and>
            processedRows job' = processedRows job + int (length (rows dto)) \<and>
            successCount job' = successCount job + success res \<and>
            failedCount job' = failedCount job + failed res \<and>
            lastProcessedIndex job' = startIndex dto + int (length (rows dto)) - 1 \<and>
            status job' = (if processedRows job' \<ge> totalRows job then COMPLETED else PROCESSING)"
    using processBatch_accepted [OF assms, of dateYear create dto userId] by blast
next
  assume h: "length rs = 250 \<and> totalRows job = 250 \<and> processedRows job = 0"
  let ?d1 = "\<lparr>rows = map toImportRow (take 100 rs), startIndex = 0\<rparr>"
  let ?d2 = "\<lparr>rows = map toImportRow (take 100 (drop 100 rs)), startIndex = 100\<rparr>"
  let ?d3 = "\<lparr>rows = map toImportRow (take 100 (drop 200 rs)), startIndex = 200\<rparr>"
  obtain r1 st1 job1 where s1: "processBatch dateYear create st jobId ?d1 userId = Inr (r1, st1)"
    and j1: "jobs st1 jobId = Some job1" "totalRows job1 = 250" "processedRows job1 = 100"
      "status job1 = PROCESSING"
    using processBatch_accepted [OF assms, of dateYear create ?d1 userId] h by auto
  obtain r2 st2 job2 where s2: "processBatch dateYear create st1 jobId ?d2 userId = Inr (r2, st2)"
    and j2: "jobs st2 jobId = Some job2" "totalRows job2 = 250" "processedRows job2 = 200"
      "status job2 = PROCESSING"
    using processBatch_accepted [of st1 jobId job1 dateYear create ?d2 userId] j1 h by auto
  obtain r3 st3 job3 where s3: "processBatch dateYear create st2 jobId ?d3 userId = Inr (r3, st3)"
    and j3: "jobs st3 jobId = Some job3" "processedRows job3 = 250" "status job3 = COMPLETED"
    using processBatch_accepted [of st2 jobId job2 dateYear create ?d3 userId] j2 h by auto
  have "submitBatches dateYear create jobId userId rs 300 st3 = Inr st3"
    using h by (subst submitBatches.simps) simp
  then have "submitBatches dateYear create jobId userId rs 200 st2 = Inr st3"
    using h s3 by (subst submitBatches.simps) (simp add: batchSize_def)
  then have "submitBatches dateYear create jobId userId rs 100 st1 = Inr st3"
    using h s2 by (subst submitBatches.simps) (simp add: batchSize_def)
  then have "submitBatches dateYear create jobId userId rs 0 st = Inr st3"
    using h s1 by (subst submitBatches.simps) (simp add: batchSize_def)
  with s1 s2 s3 j3 show "\<exists>r1 st1 r2 st2 r3 st3 job3.
              processBatch dateYear create st jobId \<lparr>rows = map toImportRow (take 100 rs), startIndex = 0\<rparr> userId
                = Inr (r1, st1) \<and>
              processBatch dateYear create st1 jobId \<lparr>rows = map toImportRow (take 100 (drop 100 rs)), startIndex = 100\<rparr> userId
                = Inr (r2, st2) \<and>
              processBatch dateYear create st2 jobId \<lparr>rows = map toImportRow (take 100 (drop 200 rs)), startIndex = 200\<rparr> userId
                = Inr (r3, st3) \<and>
              submitBatches dateYear create jobId userId rs 0 st = Inr st3 \<and>
              jobs st3 jobId = Some job3 \<and> processedRows job3 = 250 \<and> status job3 = COMPLETED"
    by blast
qed


text \<open>
  Witness for C1: a pending job of 250 rows, one chunk of one row, and the loop over 250
  rows.
\<close>

theorem processBatch_counters_witness:
  "(\<exists>res st' job'.
      processBatch exampleDateYear uniqueCreate (example_server 250 PENDING []) ''job-1''
        \<lparr>rows = [example_row], startIndex = 0\<rparr> ''user-1'' = Inr (res, st') \<and>
      jobs st' ''job-1'' = Some job' \<and>
      processedRows job' = 1 \<and>
      successCount job' = success res \<and>
      failedCount job' = failed res \<and>
      lastProcessedIndex job' = 0 \<and>
      status job' = PROCESSING) \<and>
   (\<exists>st3 job3.
      submitBatches exampleDateYear uniqueCreate ''job-1'' ''user-1'' (replicate 250 good_row) 0
        (example_server 250 PENDING []) = Inr st3 \<and>
      jobs st3 ''job-1'' = Some job3 \<and> processedRows job3 = 250 \<and> status job3 = COMPLETED)"
proof -
  have a: "jobs (example_server 250 PENDING []) ''job-1'' = Some (example_job 250 PENDING)"
    by (simp add: example_server_def)
  have b: "status (example_job 250 PENDING) \<noteq> COMPLETED"
    and c: "status (example_job 250 PENDING) \<noteq> FAILED"
    by (simp_all add: example_job_def)
  have d: "length (replicate 250 good_row) = 250 \<and> totalRows (example_job 250 PENDING) = 250
      \<and> processedRows (example_job 250 PENDING) = 0"
    by (simp add: example_job_def)
  have e: "totalRows (example_job 250 PENDING) = 250" "processedRows (example_job 250 PENDING) = 0"
    "successCount (example_job 250 PENDING) = 0" "failedCount (example_job 250 PENDING) = 0"
    by (simp_all add: example_job_def)
  from processBatch_counters [OF a b c, of exampleDateYear uniqueCreate
      "\<lparr>rows = [example_row], startIndex = 0\<rparr>" "''user-1''" "replicate 250 good_row"] d
  show ?thesis
    unfolding e by (simp split: if_splits) blast
qed


text \<open>
  The first loop of \<open>processBatch\<close> leaves the success counter alone and turns every row
  into a case to create or into one failure.
\<close>

lemma prepareCases_counts:
  assumes "prepareCases dateYear jobId userId start i rs (cs, res) = (cs', res')"
  shows "success res' = success res \<and>
         failed res' + int (length cs') = failed res + int (length cs) + int (length rs)"
  using assms
proof (induction rs arbitrary: i cs res)
  case Nil
  then show ?case by simp
next
  case (Cons r rs)
  show ?case
  proof (cases "prepareCase dateYear jobId userId r")
    case (Inr c)
    with Cons.prems have "prepareCases dateYear jobId userId start (Suc i) rs (cs @ [c], res) = (cs', res')"
      by simp
    from Cons.IH [OF this] show ?thesis
      by simp
  next
    case (Inl msg)
    let ?res = "res\<lparr>failed := failed res + 1,
                   errors := errors res @
                     [\<lparr>be_index = start + int i, be_caseId = orElse (dto_caseId r) ''unknown'',
                       be_error = msg\<rparr>]\<rparr>"
    from Inl Cons.prems have "prepareCases dateYear jobId userId start (Suc i) rs (cs, ?res) = (cs', res')"
      by simp
    from Cons.IH [OF this] show ?thesis
      by simp
  qed
qed

text \<open>The second loop counts every case it is given, as a success or as a failure.\<close>

lemma createCases_counts:
  assumes "createCases create start k cs (db, res) = (db', res')"
  shows "success res' + failed res' = success res + failed res + int (length cs)"
  using assms
proof (induction cs arbitrary: k db res)
  case Nil
  then show ?case by simp
next
  case (Cons c cs)
  obtain r db1 where r: "create db c = (r, db1)"
    by (cases "create db c")
  show ?case
  proof (cases r)
    case None
    with r Cons.prems have "createCases create start (Suc k) cs
        (db1, res\<lparr>success := success res + 1\<rparr>) = (db', res')"
      by simp
    from Cons.IH [OF this] show ?thesis
      by simp
  next
    case (Some msg)
    let ?res = "res\<lparr>failed := failed res + 1,
                    errors := errors res @
                      [\<lparr>be_index = start + int k, be_caseId = cd_caseId c,
                        be_error = (if str_includes msg ''Unique constraint''
                                    then ''Duplicate case ID'' else msg)\<rparr>]\<rparr>"
    from Some r Cons.prems have "createCases create start (Suc k) cs (db1, ?res) = (db', res')"
      by simp
    from Cons.IH [OF this] show ?thesis
      by simp
  qed
qed

text \<open>
  The value of \<open>processBatch\<close> on a job that is neither completed nor failed, from the
  results of its two loops.
\<close>

lemma processBatch_run:
  assumes "jobs st jobId = Some job" and "status job \<noteq> COMPLETED" and "status job \<noteq> FAILED"
    and "prepareCases dateYear jobId userId (startIndex dto) 0 (rows dto)
           ([], \<lparr>success = 0, failed = 0, errors = []\<rparr>) = (cs, r1)"
    and "createCases create (startIndex dto) 0 cs (cases st, r1) = (db', res)"
  shows "processBatch dateYear create st jobId dto userId =
           Inr (res,
                st\<lparr>jobs := (jobs st)(jobId \<mapsto>
                       job\<lparr>processedRows := processedRows job + int (length (rows dto)),
                           successCount := successCount job + success res,
                           failedCount := failedCount job + failed res,
                           lastProcessedIndex := startIndex dto + int (length (rows dto)) - 1,
                           status := (if processedRows job + int (length (rows dto)) \<ge> totalRows job
                                      then COMPLETED else PROCESSING),
                           errorData := (if errors res \<noteq> []
                                         then Some ((case errorData job of None \<Rightarrow> [] | Some es \<Rightarrow> es)
                                                    @ errors res)
                                         else errorData job)\<rparr>),
                   cases := db'\<rparr>)"
  using assms by (simp add: processBatch_def Let_def)

text \<open>
  Claim C10. \<open>processBatch\<close> fails in two cases only, an unknown job (\<open>NotFoundException\<close>)
  and a job that is completed or failed (\<open>BadRequestException\<close>). A chunk sent to a paused
  job is processed as any other chunk: the call returns the result of the two loops over
  the rows of the chunk, run from the empty result on the cases stored so far; every row of
  the chunk is counted, as a success or as a failure; the job's counters, last index and
  error list are advanced by that result; the other jobs are untouched; and the value of the
  call is the one it has when the same job is in the state \<open>PROCESSING\<close>. The update that
  ends the call sets the status to \<open>PROCESSING\<close> or \<open>COMPLETED\<close>: the job is no longer
  paused.
\<close>

theorem processBatch_paused_job:
  "(processBatch dateYear create st jobId dto userId = Inl e \<longleftrightarrow>
      (jobs st jobId = None \<and> e = NotFoundException ''Import job not found'') \<or>
      (\<exists>job. jobs st jobId = Some job \<and> (status job = COMPLETED \<or> status job = FAILED) \<and>
             e = BadRequestException ''Import job already completed or failed'')) \<and>
   (jobs st jobId = Some job \<and> status job = PAUSED \<longrightarrow>
      (\<exists>res st' job' caseCreations result1.
         processBatch dateYear create st jobId dto userId = Inr (res, st') \<and>
         jobs st' jobId = Some job' \<and>
         status job' = (if processedRows job + int (length (rows dto)) \<ge> totalRows job
                        then COMPLETED else PROCESSING) \<and>
         status job' \<noteq> PAUSED \<and>
         prepareCases dateYear jobId userId (startIndex dto) 0 (rows dto)
           ([], \<lparr>success = 0, failed = 0, errors = []\<rparr>) = (caseCreations, result1) \<and>
         createCases create (startIndex dto) 0 caseCreations (cases st, result1) = (cases st', res) \<and>
         success res + failed res = int (length (rows dto)) \<and>
         processedRows job' = processedRows job + int (length (rows dto)) \<and>
         successCount job' = successCount job + success res \<and>
         failedCount job' = failedCount job + failed res \<and>
         lastProcessedIndex job' = startIndex dto + int (length (rows dto)) - 1 \<and>
         totalRows job' = totalRows job \<and>
         errorData job' = (if errors res \<noteq> []
                           then Some ((case errorData job of None \<Rightarrow> [] | Some es \<Rightarrow> es) @ errors res)
                           else errorData job) \<and>
         (\<forall>k. k \<noteq> jobId \<longrightarrow> jobs st' k = jobs st k) \<and>
         processBatch dateYear create st jobId dto userId =
           processBatch dateYear create
             (st\<lparr>jobs := (jobs st)(jobId \<mapsto> job\<lparr>status := PROCESSING\<rparr>)\<rparr>) jobId dto userId))"
proof (intro conjI impI)
  show "processBatch dateYear create st jobId dto userId = Inl e \<longleftrightarrow>
      (jobs st jobId = None \<and> e = NotFoundException ''Import job not found'') \<or>
      (\<exists>job. jobs st jobId = Some job \<and> (status job = COMPLETED \<or> status job = FAILED) \<and>
             e = BadRequestException ''Import job already completed or failed'')"
    by (auto simp: processBatch_def Let_def split: option.splits prod.splits)
next
  assume h: "jobs st jobId = Some job \<and> status job = PAUSED"
  then have j: "jobs st jobId = Some job" "status job \<noteq> COMPLETED" "status job \<noteq> FAILED"
    by simp_all
  let ?r0 = "\<lparr>success = 0, failed = 0, errors = []\<rparr>"
  obtain cs r1 where p: "prepareCases dateYear jobId userId (startIndex dto) 0 (rows dto) ([], ?r0) = (cs, r1)"
    by (cases "prepareCases dateYear jobId userId (startIndex dto) 0 (rows dto) ([], ?r0)")
  obtain db' res where c: "createCases create (startIndex dto) 0 cs (cases st, r1) = (db', res)"
    by (cases "createCases create (startIndex dto) 0 cs (cases st, r1)")
  let ?job' = "job\<lparr>processedRows := processedRows job + int (length (rows dto)),
                   successCount := successCount job + success res,
                   failedCount := failedCount job + failed res,
                   lastProcessedIndex := startIndex dto + int (length (rows dto)) - 1,
                   status := (if processedRows job + int (length (rows dto)) \<ge> totalRows job
                              then COMPLETED else PROCESSING),
                   errorData := (if errors res \<noteq> []
                                 then Some ((case errorData job of None \<Rightarrow> [] | Some es \<Rightarrow> es)
                                            @ errors res)
                                 else errorData job)\<rparr>"
  let ?st' = "st\<lparr>jobs := (jobs st)(jobId \<mapsto> ?job'), cases := db'\<rparr>"
  let ?st2 = "st\<lparr>jobs := (jobs st)(jobId \<mapsto> job\<lparr>status := PROCESSING\<rparr>)\<rparr>"
  have run: "processBatch dateYear create st jobId dto userId = Inr (res, ?st')"
    by (rule processBatch_run [OF j p c])
  have "processBatch dateYear create ?st2 jobId dto userId = Inr (res, ?st')"
    using processBatch_run [of ?st2 jobId "job\<lparr>status := PROCESSING\<rparr>" dateYear userId dto cs r1
        create db' res] p c
    by simp
  with run have same: "processBatch dateYear create st jobId dto userId =
      processBatch dateYear create ?st2 jobId dto userId"
    by simp
  from prepareCases_counts [OF p] createCases_counts [OF c]
  have count: "success res + failed res = int (length (rows dto))"
    by simp
  have st: "status ?job' \<noteq> PAUSED"
    by simp
  show "\<exists>res st' job' caseCreations result1.
         processBatch dateYear create st jobId dto userId = Inr (res, st') \<and>
         jobs st' jobId = Some job' \<and>
         status job' = (if processedRows job + int (length (rows dto)) \<ge> totalRows job
                        then COMPLETED else PROCESSING) \<and>
         status job' \<noteq> PAUSED \<and>
         prepareCases dateYear jobId userId (startIndex dto) 0 (rows dto)
           ([], \<lparr>success = 0, failed = 0, errors = []\<rparr>) = (caseCreations, result1) \<and>
         createCases create (startIndex dto) 0 caseCreations (cases st, result1) = (cases st', res) \<and>
         success res + failed res = int (length (rows dto)) \<and>
         processedRows job' = processedRows job + int (length (rows dto)) \<and>
         successCount job' = successCount job + success res \<and>
         failedCount job' = failedCount job + failed res \<and>
         lastProcessedIndex job' = startIndex dto + int (length (rows dto)) - 1 \<and>
         totalRows job' = totalRows job \<and>
         errorData job' = (if errors res \<noteq> []
                           then Some ((case errorData job of None \<Rightarrow> [] | Some es \<Rightarrow> es) @ errors res)
                           else errorData job) \<and>
         (\<forall>k. k \<noteq> jobId \<longrightarrow> jobs st' k = jobs st k) \<and>
         processBatch dateYear create st jobId dto userId =
           processBatch dateYear create
             (st\<lparr>jobs := (jobs st)(jobId \<mapsto> job\<lparr>status := PROCESSING\<rparr>)\<rparr>) jobId dto userId"
    apply (rule exI [of _ res])
    apply (rule exI [of _ ?st'])
    apply (rule exI [of _ ?job'])
    apply (rule exI [of _ cs])
    apply (rule exI [of _ r1])
    using run same count st p c by simp
qed

text \<open>
  Witness for C10: a paused job that receives one valid row (the row is stored and counted),
  a completed one and an unknown id.
\<close>

theorem processBatch_paused_job_witness:
  "(\<exists>res st' job'.
      processBatch exampleDateYear uniqueCreate (example_server 250 PAUSED []) ''job-1''
        \<lparr>rows = [example_row], startIndex = 0\<rparr> ''user-1'' = Inr (res, st') \<and>
      jobs st' ''job-1'' = Some job' \<and> status job' = PROCESSING \<and>
      res = \<lparr>success = 1, failed = 0, errors = []\<rparr> \<and>
      cases st' = [''C-1001''] \<and>
      processedRows job' = 1 \<and> successCount job' = 1 \<and> failedCount job' = 0 \<and>
      lastProcessedIndex job' = 0 \<and> errorData job' = None) \<and>
   processBatch exampleDateYear uniqueCreate (example_server 250 COMPLETED []) ''job-1''
        \<lparr>rows = [example_row], startIndex = 0\<rparr> ''user-1''
     = Inl (BadRequestException ''Import job already completed or failed'') \<and>
   processBatch exampleDateYear uniqueCreate (example_server 250 PAUSED []) ''job-2''
        \<lparr>rows = [example_row], startIndex = 0\<rparr> ''user-1''
     = Inl (NotFoundException ''Import job not found'')"
proof -
  let ?d = "\<lparr>rows = [example_row], startIndex = 0\<rparr>"
  let ?r0 = "\<lparr>success = 0, failed = 0, errors = []\<rparr>"
  let ?cd = "\<lparr>cd_caseId = ''C-1001'', cd_applicantName = ''John Doe'', cd_dob = ''1990-01-01'',
      cd_email = Some ''john@example.com'', cd_phone = Some ''+12025551234'',
      cd_category = ''TAX'', cd_priority = ''HIGH'', cd_importJobId = ''job-1'',
      cd_userId = ''user-1''\<rparr>"
  have a: "jobs (example_server 250 PAUSED []) ''job-1'' = Some (example_job 250 PAUSED)
      \<and> status (example_job 250 PAUSED) = PAUSED"
    by (simp add: example_server_def example_job_def)
  have b: "jobs (example_server 250 COMPLETED []) ''job-1'' = Some (example_job 250 COMPLETED)"
    "status (example_job 250 COMPLETED) = COMPLETED"
    by (simp_all add: example_server_def example_job_def)
  have c: "jobs (example_server 250 PAUSED []) ''job-2'' = None"
    by (simp add: example_server_def)
  have e: "totalRows (example_job 250 PAUSED) = 250" "processedRows (example_job 250 PAUSED) = 0"
    "successCount (example_job 250 PAUSED) = 0" "failedCount (example_job 250 PAUSED) = 0"
    "errorData (example_job 250 PAUSED) = None" "cases (example_server 250 PAUSED []) = []"
    by (simp_all add: example_job_def example_server_def)
  have p: "prepareCases exampleDateYear ''job-1'' ''user-1'' 0 0 [example_row] ([], ?r0) = ([?cd], ?r0)"
    by (simp add: example_row_def prepareCase_def Category_values_def Priority_values_def
        exampleDateYear_def isDigit_def digits_def decimal_def digitVal_def)
  have cr: "createCases uniqueCreate 0 0 [?cd] ([], ?r0) = ([''C-1001''], \<lparr>success = 1, failed = 0, errors = []\<rparr>)"
    by (simp add: uniqueCreate_def)
  from processBatch_paused_job [of exampleDateYear uniqueCreate "example_server 250 PAUSED []"
        "''job-1''" ?d "''user-1''" undefined "example_job 250 PAUSED", THEN conjunct2, THEN mp, OF a]
  obtain res st' job' cs r1 where r:
    "processBatch exampleDateYear uniqueCreate (example_server 250 PAUSED []) ''job-1'' ?d ''user-1''
        = Inr (res, st')"
    "jobs st' ''job-1'' = Some job'"
    "status job' = (if processedRows (example_job 250 PAUSED) + int (length (rows ?d))
                        \<ge> totalRows (example_job 250 PAUSED) then COMPLETED else PROCESSING)"
    "prepareCases exampleDateYear ''job-1'' ''user-1'' (startIndex ?d) 0 (rows ?d) ([], ?r0) = (cs, r1)"
    "createCases uniqueCreate (startIndex ?d) 0 cs (cases (example_server 250 PAUSED []), r1) = (cases st', res)"
    "processedRows job' = processedRows (example_job 250 PAUSED) + int (length (rows ?d))"
    "successCount job' = successCount (example_job 250 PAUSED) + success res"
    "failedCount job' = failedCount (example_job 250 PAUSED) + failed res"
    "lastProcessedIndex job' = startIndex ?d + int (length (rows ?d)) - 1"
    "errorData job' = (if errors res \<noteq> []
                           then Some ((case errorData (example_job 250 PAUSED) of None \<Rightarrow> [] | Some es \<Rightarrow> es) @ errors res)
                           else errorData (example_job 250 PAUSED))"
    by (elim exE conjE) (rule that; assumption)
  from r(4) p have cs: "cs = [?cd]" "r1 = ?r0"
    by simp_all
  from r(5) cr have res: "cases st' = [''C-1001'']" "res = \<lparr>success = 1, failed = 0, errors = []\<rparr>"
    unfolding cs e by simp_all
  have 1: "\<exists>res st' job'.
      processBatch exampleDateYear uniqueCreate (example_server 250 PAUSED []) ''job-1'' ?d ''user-1''
        = Inr (res, st') \<and>
      jobs st' ''job-1'' = Some job' \<and> status job' = PROCESSING \<and>
      res = \<lparr>success = 1, failed = 0, errors = []\<rparr> \<and>
      cases st' = [''C-1001''] \<and>
      processedRows job' = 1 \<and> successCount job' = 1 \<and> failedCount job' = 0 \<and>
      lastProcessedIndex job' = 0 \<and> errorData job' = None"
    apply (rule exI [of _ res])
    apply (rule exI [of _ st'])
    apply (rule exI [of _ job'])
    using r(1-3,6-10) res unfolding e by simp
  have 2: "processBatch exampleDateYear uniqueCreate (example_server 250 COMPLETED []) ''job-1'' ?d ''user-1''
     = Inl (BadRequestException ''Import job already completed or failed'')"
    using processBatch_paused_job [of exampleDateYear uniqueCreate "example_server 250 COMPLETED []"
        "''job-1''" ?d "''user-1''" "BadRequestException ''Import job already completed or failed''"] b
    by simp
  have 3: "processBatch exampleDateYear uniqueCreate (example_server 250 PAUSED []) ''job-2'' ?d ''user-1''
     = Inl (NotFoundException ''Import job not found'')"
    using processBatch_paused_job [of exampleDateYear uniqueCreate "example_server 250 PAUSED []"
        "''job-2''" ?d "''user-1''" "NotFoundException ''Import job not found''"] c
    by simp
  from 1 2 3 show ?thesis by blast
qed

text \<open>
  Claim C3, at a completed job: \<open>pauseImport\<close> checks that the job exists and nothing
  else, so the call succeeds and the completed job becomes \<open>PAUSED\<close>.
\<close>

theorem pauseImport_completed_job:
  "\<exists>r st'. pauseImport (example_server 250 COMPLETED []) ''job-1'' = Inr (r, st') \<and>
     map_option status (jobs st' ''job-1'') = Some PAUSED"
  by (simp add: pauseImport_def example_server_def example_job_def)

text \<open>
  \<open>resumeImport\<close> does check the status: it fails unless the job is paused, and on success
  sets \<open>PROCESSING\<close> and reports \<open>totalRows - processedRows\<close>.
\<close>

lemma resumeImport_spec:
  "resumeImport st jobId =
     (case jobs st jobId of
        None \<Rightarrow> Inl (NotFoundException ''Import job not found'')
      | Some job \<Rightarrow>
          if status job = PAUSED
          then Inr (\<lparr>rr_message = ''Import resumed'', rr_lastProcessedIndex = lastProcessedIndex job,
                     rr_remainingRows = totalRows job - processedRows job\<rparr>,
                    st\<lparr>jobs := (jobs st)(jobId \<mapsto> job\<lparr>status := PROCESSING\<rparr>)\<rparr>)
          else Inl (BadRequestException ''Import is not paused''))"
  by (simp add: resumeImport_def split: option.splits)

text \<open>
  An error of the first loop carries the absolute index of its row. An error of the second
  loop carries the start index plus the position of the case among the cases to create.
\<close>

lemma prepareCases_errors:
  assumes "e \<in> set (errors (snd (prepareCases dateYear jobId userId start i rs (cs, res))))"
  shows "e \<in> set (errors res) \<or>
         (\<exists>k<length rs. be_index e = start + int (i + k) \<and>
            prepareCase dateYear jobId userId (rs ! k) = Inl (be_error e) \<and>
            be_caseId e = orElse (dto_caseId (rs ! k)) ''unknown'')"
  using assms
proof (induction rs arbitrary: i cs res)
  case Nil
  then show ?case by simp
next
  case (Cons r rs)
  show ?case
  proof (cases "prepareCase dateYear jobId userId r")
    case (Inr c)
    with Cons.prems have "e \<in> set (errors (snd (prepareCases dateYear jobId userId start (Suc i) rs (cs @ [c], res))))"
      by simp
    from Cons.IH [OF this] show ?thesis
      by auto
  next
    case (Inl msg)
    let ?res = "res\<lparr>failed := failed res + 1,
                   errors := errors res @
                     [\<lparr>be_index = start + int i, be_caseId = orElse (dto_caseId r) ''unknown'',
                       be_error = msg\<rparr>]\<rparr>"
    from Inl Cons.prems have "e \<in> set (errors (snd (prepareCases dateYear jobId userId start (Suc i) rs (cs, ?res))))"
      by simp
    from Cons.IH [OF this] Inl show ?thesis
      by auto
  qed
qed

lemma createCases_errors:
  assumes "e \<in> set (errors (snd (createCases create start k cs (db, res))))"
  shows "e \<in> set (errors res) \<or>
         (\<exists>n<length cs. be_index e = start + int (k + n) \<and> be_caseId e = cd_caseId (cs ! n))"
  using assms
proof (induction cs arbitrary: k db res)
  case Nil
  then show ?case by simp
next
  case (Cons c cs)
  obtain r db' where r: "create db c = (r, db')"
    by (cases "create db c")
  show ?case
  proof (cases r)
    case None
    with r Cons.prems have "e \<in> set (errors (snd (createCases create start (Suc k) cs
        (db', res\<lparr>success := success res + 1\<rparr>))))"
      by simp
    from Cons.IH [OF this] show ?thesis
      by auto
  next
    case (Some msg)
    let ?res = "res\<lparr>failed := failed res + 1,
                    errors := errors res @
                      [\<lparr>be_index = start + int k, be_caseId = cd_caseId c,
                        be_error = (if str_includes msg ''Unique constraint''
                                    then ''Duplicate case ID'' else msg)\<rparr>]\<rparr>"
    from Some r Cons.prems have "e \<in> set (errors (snd (createCases create start (Suc k) cs (db', ?res))))"
      by simp
    from Cons.IH [OF this] show ?thesis
      by auto
  qed
qed

text \<open>
  Claim C4, at a chunk whose first row fails the checks of \<open>prepareCase\<close> and whose second
  row is refused by the store: the second error carries index 0, the position of the case
  among the cases to create, while the row is at index 1 of the chunk. The message of the
  store's refusal is the duplicate one.
\<close>

theorem processBatch_store_error_index:
  "\<exists>st'. processBatch exampleDateYear uniqueCreate (example_server 250 PENDING [''C-1001'']) ''job-1''
       \<lparr>rows = [example_row\<lparr>dto_caseId := []\<rparr>, example_row], startIndex = 0\<rparr> ''user-1''
     = Inr (\<lparr>success = 0, failed = 2,
             errors = [\<lparr>be_index = 0, be_caseId = ''unknown'', be_error = ''Missing required fields''\<rparr>,
                       \<lparr>be_index = 0, be_caseId = ''C-1001'', be_error = ''Duplicate case ID''\<rparr>]\<rparr>, st')"
  by (simp add: processBatch_def example_server_def example_job_def example_row_def prepareCase_def
      orElse_def Category_values_def Priority_values_def uniqueCreate_def Let_def
      exampleDateYear_def isDigit_def digits_def decimal_def digitVal_def)

subsection \<open>Column mapping\<close>

lemma str_includes_Nil: "str_includes xs []"
  by (cases xs) simp_all

text \<open>
  Claim C6 fails where exactly one string normalises to the empty string: the test
  \<^verbatim>\<open>longer.length === 0\<close> looks at the longer of the two, and the empty string is
  included in every string, so the substring score is returned.
\<close>

theorem similarity_empty_counterexample:
  "similarity '''' ''abc'' = 9 / 10"
  by (simp add: similarity_def stripNonAlnum_def toLowerCase_def lowerLetters_def upperLetters_def digits_def)

text \<open>
  Claim C6, amended. When at least one of the two strings normalises to the empty string,
  \<open>similarity\<close> is 1 if both do, and 0.9 if exactly one does.
\<close>

theorem similarity_empty:
  assumes "stripNonAlnum (toLowerCase a) = [] \<or> stripNonAlnum (toLowerCase b) = []"
  shows "similarity a b =
           (if stripNonAlnum (toLowerCase a) = [] \<and> stripNonAlnum (toLowerCase b) = [] then 1 else 9 / 10)"
  using assms by (auto simp: similarity_def Let_def str_includes_Nil)

text \<open>Witness for C6: one empty side, and two empty sides.\<close>

theorem similarity_empty_witness:
  "similarity ''---'' ''abc'' = 9 / 10 \<and> similarity '' '' ''_'' = 1"
proof -
  have a: "stripNonAlnum (toLowerCase ''---'') = []" "stripNonAlnum (toLowerCase '' '') = []"
    "stripNonAlnum (toLowerCase ''_'') = []" "stripNonAlnum (toLowerCase ''abc'') = ''abc''"
    by (simp_all add: stripNonAlnum_def toLowerCase_def lowerLetters_def upperLetters_def digits_def)
  show ?thesis
    using similarity_empty [of "''---''" "''abc''"] similarity_empty [of "'' ''" "''_''"]
    by (simp add: a)
qed

text \<open>The header \<^verbatim>\<open>email\<close> matches the key of the field \<^verbatim>\<open>email\<close> exactly.\<close>

lemma findBestMatch_email:
  "findBestMatch ''email'' (map fst SCHEMA_FIELDS) = (Some ''email'', 1)"
  by code_simp

text \<open>
  \<open>autoMapColumns\<close> returns one mapping per header, in the order of the headers, and
  when the headers are pairwise distinct no two mappings share a field.
\<close>

lemma findIndex_Some:
  "findIndex p xs = Some i \<Longrightarrow> i < length xs \<and> p (xs ! i) \<and> (\<forall>j<i. \<not> p (xs ! j))"
proof (induction xs arbitrary: i)
  case Nil
  then show ?case by simp
next
  case (Cons x xs)
  show ?case
  proof (cases "p x")
    case True
    with Cons.prems show ?thesis by simp
  next
    case False
    with Cons.prems obtain k where k: "findIndex p xs = Some k" "i = Suc k"
      by auto
    from Cons.IH [OF k(1)] False k(2) show ?thesis
      by (auto simp: nth_Cons split: nat.splits)
  qed
qed

lemma assignStep_columns:
  "map cnd_csvColumn (snd (assignStep s c)) = map cnd_csvColumn (snd s)"
proof (cases "findIndex (\<lambda>x. cnd_csvColumn x = cnd_csvColumn c) (snd s)")
  case None
  then show ?thesis
    by (simp add: assignStep_def Let_def split: option.splits)
next
  case (Some i)
  from findIndex_Some [OF this] have "i < length (snd s)" "cnd_csvColumn (snd s ! i) = cnd_csvColumn c"
    by simp_all
  then have "(map cnd_csvColumn (snd s))[i := cnd_csvColumn c] = map cnd_csvColumn (snd s)"
    by (metis length_map list_update_id nth_map)
  then show ?thesis
    using Some by (simp add: assignStep_def Let_def map_update split: option.splits)
qed

lemma assignSteps_columns:
  "map cnd_csvColumn (snd (foldl assignStep s cs)) = map cnd_csvColumn (snd s)"
  by (induction cs arbitrary: s) (simp_all add: assignStep_columns)

lemma buildMapping_column: "csvColumn (buildMapping used c) = cnd_csvColumn c"
  by (simp add: buildMapping_def split: option.splits)

lemma proposeCandidates_columns: "map cnd_csvColumn (proposeCandidates used hs) = hs"
  by (induction hs) (simp_all add: proposeCandidates_def Let_def)

lemma autoMapColumns_order:
  "map csvColumn (autoMapColumns csvHeaders) = csvHeaders"
proof -
  let ?c0 = "proposeCandidates {} csvHeaders"
  obtain used cands where f: "foldl assignStep ({}, ?c0) (sort_key (\<lambda>c. - cnd_confidence c) ?c0) = (used, cands)"
    by (cases "foldl assignStep ({}, ?c0) (sort_key (\<lambda>c. - cnd_confidence c) ?c0)")
  have "map cnd_csvColumn cands = map cnd_csvColumn ?c0"
    using assignSteps_columns [of "({}, ?c0)" "sort_key (\<lambda>c. - cnd_confidence c) ?c0"] f by simp
  moreover have "autoMapColumns csvHeaders = map (buildMapping used) cands"
    using f by (simp add: autoMapColumns_def Let_def)
  ultimately show ?thesis
    by (simp add: o_def buildMapping_column proposeCandidates_columns)
qed


lemma findIndex_None: "findIndex p xs = None \<longleftrightarrow> (\<forall>x\<in>set xs. \<not> p x)"
  by (induction xs) auto

lemma findIndex_slot:
  assumes "distinct (map cnd_csvColumn cands)" and "c \<in> set cands"
  shows "\<exists>i<length cands. cands ! i = c \<and>
           findIndex (\<lambda>x. cnd_csvColumn x = cnd_csvColumn c) cands = Some i"
proof -
  from assms(2) have "findIndex (\<lambda>x. cnd_csvColumn x = cnd_csvColumn c) cands \<noteq> None"
    by (auto simp: findIndex_None)
  then obtain i where i: "findIndex (\<lambda>x. cnd_csvColumn x = cnd_csvColumn c) cands = Some i"
    by auto
  from findIndex_Some [OF this] have il: "i < length cands"
    and ic: "cnd_csvColumn (cands ! i) = cnd_csvColumn c"
    by simp_all
  from assms(2) obtain j where j: "j < length cands" "cands ! j = c"
    by (auto simp: in_set_conv_nth)
  have "map cnd_csvColumn cands ! i = map cnd_csvColumn cands ! j"
    using il ic j by simp
  then have "i = j"
    using nth_eq_iff_index_eq [OF assms(1), of i j] il j(1) by simp
  with i il j show ?thesis by blast
qed

lemma assignStep_slot:
  assumes "distinct (map cnd_csvColumn cands)" and "c \<in> set cands"
  shows "\<exists>i<length cands. cands ! i = c \<and>
           assignStep (used, cands) c =
             (case cnd_field c of
                None \<Rightarrow> (used, cands)
              | Some f \<Rightarrow>
                  if f \<notin> used then (insert f used, cands)
                  else (used, cands[i := c\<lparr>cnd_field := None, cnd_confidence := 0\<rparr>]))"
proof -
  from findIndex_slot [OF assms] obtain i where i: "i < length cands" "cands ! i = c"
    "findIndex (\<lambda>x. cnd_csvColumn x = cnd_csvColumn c) cands = Some i"
    by blast
  moreover from i have "cands[i := c] = cands"
    by (metis list_update_id)
  ultimately have "assignStep (used, cands) c =
             (case cnd_field c of
                None \<Rightarrow> (used, cands)
              | Some f \<Rightarrow>
                  if f \<notin> used then (insert f used, cands)
                  else (used, cands[i := c\<lparr>cnd_field := None, cnd_confidence := 0\<rparr>]))"
    by (simp add: assignStep_def Let_def split: option.splits)
  with i show ?thesis by blast
qed


lemma same_column:
  assumes "distinct (map cnd_csvColumn cands)" and "x \<in> set cands" and "y \<in> set cands"
    and "cnd_csvColumn x = cnd_csvColumn y"
  shows "x = y"
  using assms by (meson distinct_map inj_onD)

lemma assignStep_inv:
  assumes inv: "assignInv used cands (c # rest)"
  shows "assignInv (fst (assignStep (used, cands) c)) (snd (assignStep (used, cands) c)) rest"
proof -
  let ?col = cnd_csvColumn
  from inv have d: "distinct (map ?col cands)" and dr: "distinct (map ?col (c # rest))"
    and sub: "set (c # rest) \<subseteq> set cands"
    and u: "\<And>x f. x \<in> set cands \<Longrightarrow> ?col x \<notin> ?col ` set (c # rest) \<Longrightarrow> cnd_field x = Some f \<Longrightarrow> f \<in> used"
    and e: "\<And>x y g. x \<in> set cands \<Longrightarrow> y \<in> set cands \<Longrightarrow> ?col x \<notin> ?col ` set (c # rest) \<Longrightarrow>
        ?col y \<notin> ?col ` set (c # rest) \<Longrightarrow> cnd_field x = Some g \<Longrightarrow> cnd_field y = Some g \<Longrightarrow> x = y"
    and w: "\<And>f. f \<in> used \<Longrightarrow> \<exists>x\<in>set cands. ?col x \<notin> ?col ` set (c # rest) \<and> cnd_field x = Some f"
    unfolding assignInv_def by blast+
  have cin: "c \<in> set cands" and rin: "set rest \<subseteq> set cands"
    using sub by auto
  have cr: "?col c \<notin> ?col ` set rest" and dr': "distinct (map ?col rest)"
    using dr by auto
  have proc: "?col x \<notin> ?col ` set (c # rest) \<or> x = c"
    if "x \<in> set cands" "?col x \<notin> ?col ` set rest" for x
    using that same_column [OF d that(1) cin] by auto
  from assignStep_slot [OF d cin, of used] obtain i where i: "i < length cands" "cands ! i = c"
    and step: "assignStep (used, cands) c =
             (case cnd_field c of
                None \<Rightarrow> (used, cands)
              | Some f \<Rightarrow>
                  if f \<notin> used then (insert f used, cands)
                  else (used, cands[i := c\<lparr>cnd_field := None, cnd_confidence := 0\<rparr>]))"
    by blast
  show ?thesis
  proof (cases "cnd_field c")
    case None
    then have s: "assignStep (used, cands) c = (used, cands)"
      using step by simp
    show ?thesis
      unfolding s fst_conv snd_conv assignInv_def
    proof (intro conjI ballI impI allI)
      show "distinct (map ?col cands)" by (rule d)
      show "distinct (map ?col rest)" by (rule dr')
      show "set rest \<subseteq> set cands" by (rule rin)
    next
      fix x f assume "x \<in> set cands" "?col x \<notin> ?col ` set rest" "cnd_field x = Some f"
      then show "f \<in> used"
        using proc [of x] u [of x f] None by auto
    next
      fix x y g assume "x \<in> set cands" "y \<in> set cands"
        and "?col x \<notin> ?col ` set rest \<and> ?col y \<notin> ?col ` set rest \<and> cnd_field x = Some g \<and> cnd_field y = Some g"
      then show "x = y"
        using proc [of x] proc [of y] e [of x y g] None by auto
    next
      fix f assume "f \<in> used"
      from w [OF this] show "\<exists>x\<in>set cands. ?col x \<notin> ?col ` set rest \<and> cnd_field x = Some f"
        by auto
    qed
  next
    case (Some f)
    show ?thesis
    proof (cases "f \<in> used")
      case False
      then have s: "assignStep (used, cands) c = (insert f used, cands)"
        using step Some by simp
      show ?thesis
        unfolding s fst_conv snd_conv assignInv_def
      proof (intro conjI ballI impI allI)
        show "distinct (map ?col cands)" by (rule d)
        show "distinct (map ?col rest)" by (rule dr')
        show "set rest \<subseteq> set cands" by (rule rin)
      next
        fix x g assume "x \<in> set cands" "?col x \<notin> ?col ` set rest" "cnd_field x = Some g"
        then show "g \<in> insert f used"
          using proc [of x] u [of x g] Some by auto
      next
        fix x y g assume xy: "x \<in> set cands" "y \<in> set cands"
          and h: "?col x \<notin> ?col ` set rest \<and> ?col y \<notin> ?col ` set rest \<and> cnd_field x = Some g \<and> cnd_field y = Some g"
        show "x = y"
        proof (cases "x = c \<or> y = c")
          case True
          then have "g = f"
            using h Some by auto
          then show ?thesis
            using proc [of x] proc [of y] u [of x f] u [of y f] xy h False by auto
        next
          case False
          then show ?thesis
            using proc [of x] proc [of y] e [of x y g] xy h by auto
        qed
      next
        fix g assume "g \<in> insert f used"
        then show "\<exists>x\<in>set cands. ?col x \<notin> ?col ` set rest \<and> cnd_field x = Some g"
          using w [of g] cin cr Some by auto
      qed
    next
      case True
      let ?c' = "c\<lparr>cnd_field := None, cnd_confidence := 0\<rparr>"
      let ?cands' = "cands[i := ?c']"
      have s: "assignStep (used, cands) c = (used, ?cands')"
        using step Some True by simp
      have dc: "distinct cands"
        using d by (simp add: distinct_map)
      have set': "set ?cands' = insert ?c' (set cands - {c})"
        using set_update_distinct [OF dc i(1)] i(2) by simp
      have cols: "map ?col ?cands' = map ?col cands"
        using assignStep_columns [of "(used, cands)" c] s by simp
      have old: "x \<in> set cands \<and> x \<noteq> c" if "x \<in> set ?cands'" "cnd_field x \<noteq> None" for x
      proof -
        from that(1) set' have "x = ?c' \<or> (x \<in> set cands \<and> x \<noteq> c)"
          by auto
        moreover have "cnd_field ?c' = None"
          by simp
        ultimately show ?thesis
          using that(2) by metis
      qed
      show ?thesis
        unfolding s fst_conv snd_conv assignInv_def
      proof (intro conjI ballI impI allI)
        show "distinct (map ?col ?cands')" using cols d by simp
        show "distinct (map ?col rest)" by (rule dr')
        show "set rest \<subseteq> set ?cands'"
          using rin cr set' by auto
      next
        fix x g assume "x \<in> set ?cands'" "?col x \<notin> ?col ` set rest" "cnd_field x = Some g"
        then show "g \<in> used"
          using old [of x] proc [of x] u [of x g] by auto
      next
        fix x y g assume xy: "x \<in> set ?cands'" "y \<in> set ?cands'"
          and h: "?col x \<notin> ?col ` set rest \<and> ?col y \<notin> ?col ` set rest \<and> cnd_field x = Some g \<and> cnd_field y = Some g"
        then show "x = y"
          using old [of x] old [of y] proc [of x] proc [of y] e [of x y g] by auto
      next
        fix g assume "g \<in> used"
        from w [OF this] obtain x where "x \<in> set cands" "?col x \<notin> ?col ` set (c # rest)" "cnd_field x = Some g"
          by blast
        then show "\<exists>x\<in>set ?cands'. ?col x \<notin> ?col ` set rest \<and> cnd_field x = Some g"
          using set' by auto
      qed
    qed
  qed
qed


lemma assignSteps_inv:
  "assignInv used cands cs \<Longrightarrow>
     assignInv (fst (foldl assignStep (used, cands) cs)) (snd (foldl assignStep (used, cands) cs)) []"
proof (induction cs arbitrary: used cands)
  case Nil
  then show ?case by simp
next
  case (Cons c cs)
  obtain used' cands' where s: "assignStep (used, cands) c = (used', cands')"
    by (cases "assignStep (used, cands) c")
  from assignStep_inv [OF Cons.prems] s have "assignInv used' cands' cs"
    by simp
  from Cons.IH [OF this] s show ?case
    by simp
qed

lemma buildMapping_field:
  "schemaField (buildMapping used c) = Some f \<Longrightarrow> cnd_field c = Some f"
  by (auto simp: buildMapping_def split: option.splits if_splits)

lemma autoMapColumns_unique:
  assumes "distinct csvHeaders" and "i < length csvHeaders" and "j < length csvHeaders"
    and "schemaField (autoMapColumns csvHeaders ! i) = Some f"
    and "schemaField (autoMapColumns csvHeaders ! j) = Some f"
  shows "i = j"
proof -
  let ?c0 = "proposeCandidates {} csvHeaders"
  let ?sorted = "sort_key (\<lambda>c. - cnd_confidence c) ?c0"
  obtain used cands where f: "foldl assignStep ({}, ?c0) ?sorted = (used, cands)"
    by (cases "foldl assignStep ({}, ?c0) ?sorted")
  have d0: "distinct (map cnd_csvColumn ?c0)"
    using assms(1) by (simp add: proposeCandidates_columns)
  then have "distinct (map cnd_csvColumn ?sorted)"
    by (simp add: distinct_map)
  with d0 have "assignInv {} ?c0 ?sorted"
    by (simp add: assignInv_def)
  from assignSteps_inv [OF this] f have inv: "assignInv used cands []"
    by simp
  have cols: "map cnd_csvColumn cands = csvHeaders"
    using assignSteps_columns [of "({}, ?c0)" ?sorted] f by (simp add: proposeCandidates_columns)
  then have len: "length cands = length csvHeaders"
    by (metis length_map)
  have dc: "distinct cands"
    using inv by (simp add: assignInv_def distinct_map)
  have res: "autoMapColumns csvHeaders = map (buildMapping used) cands"
    using f by (simp add: autoMapColumns_def Let_def)
  have "cnd_field (cands ! i) = Some f" "cnd_field (cands ! j) = Some f"
    using assms(2-5) len res by (simp_all add: buildMapping_field)
  moreover have "cands ! i \<in> set cands" "cands ! j \<in> set cands"
    using assms(2,3) len by simp_all
  ultimately have "cands ! i = cands ! j"
    using inv unfolding assignInv_def by simp
  then show ?thesis
    using dc assms(2,3) len by (simp add: nth_eq_iff_index_eq)
qed

text \<open>
  Claim C5, at three columns with the same header: the assignment loop looks a candidate up
  by its column name, which finds the first of them each time; the first column is cleared
  when the second candidate is refused, and nothing clears the second and the third, so two
  entries of the result reference the field \<^verbatim>\<open>email\<close>.
\<close>

theorem autoMapColumns_repeated_header:
  "autoMapColumns [''email'', ''email'', ''email''] =
     [\<lparr>csvColumn = ''email'', schemaField = None, confidence = 0, isAutoMapped = False\<rparr>,
      \<lparr>csvColumn = ''email'', schemaField = Some ''email'', confidence = 1, isAutoMapped = True\<rparr>,
      \<lparr>csvColumn = ''email'', schemaField = Some ''email'', confidence = 1, isAutoMapped = True\<rparr>]"
  by (simp add: autoMapColumns_def proposeCandidates_def buildMapping_def findBestMatch_email
      assignStep_def Let_def)

subsection \<open>Row validation\<close>

text \<open>
  Claim C9. For the row with an empty case identifier, an empty name, the date of birth
  \<^verbatim>\<open>2099-01-01\<close>, the category \<^verbatim>\<open>INVALID\<close> and no email, phone or priority,
  \<open>validateRow\<close> returns exactly four errors, in this order: the missing case identifier,
  the missing name, the date of birth out of range, the invalid category. The engine reads
  the date as a day of 2099 (of 2098 in a time zone behind UTC), and the clock is before
  2098.
\<close>

theorem validateRow_four_errors:
  assumes "dateYear ''2099-01-01'' = Some y" and "2098 \<le> y" and "currentYear < 2098"
  shows "validateRow dateYear currentYear
           \<lparr>row_id = rid, case_id = Some '''', applicant_name = Some '''', dob = Some ''2099-01-01'',
            email = None, phone = None, category = Some ''INVALID'', priority = None\<rparr> =
         [\<lparr>ve_field = ''case_id'', ve_message = ''Case ID is required'',
           ve_value = Some '''', ve_suggestion = None\<rparr>,
          \<lparr>ve_field = ''applicant_name'', ve_message = ''Applicant name is required'',
           ve_value = Some '''', ve_suggestion = None\<rparr>,
          \<lparr>ve_field = ''dob'', ve_message = ''Invalid date (must be between 1900 and today)'',
           ve_value = Some ''2099-01-01'', ve_suggestion = None\<rparr>,
          \<lparr>ve_field = ''category'', ve_message = ''Category must be TAX, LICENSE, or PERMIT'',
           ve_value = Some ''INVALID'', ve_suggestion = None\<rparr>]"
  using assms by (simp add: validate_defs string_defs)

text \<open>Witness for C9: the date read at UTC, the clock in 2026.\<close>

theorem validateRow_four_errors_witness:
  "validateRow exampleDateYear 2026 broken_row =
         [\<lparr>ve_field = ''case_id'', ve_message = ''Case ID is required'',
           ve_value = Some '''', ve_suggestion = None\<rparr>,
          \<lparr>ve_field = ''applicant_name'', ve_message = ''Applicant name is required'',
           ve_value = Some '''', ve_suggestion = None\<rparr>,
          \<lparr>ve_field = ''dob'', ve_message = ''Invalid date (must be between 1900 and today)'',
           ve_value = Some ''2099-01-01'', ve_suggestion = None\<rparr>,
          \<lparr>ve_field = ''category'', ve_message = ''Category must be TAX, LICENSE, or PERMIT'',
           ve_value = Some ''INVALID'', ve_suggestion = None\<rparr>]"
proof -
  have "exampleDateYear ''2099-01-01'' = Some 2099"
    by (simp add: date_defs string_defs)
  from validateRow_four_errors [of exampleDateYear 2099 2026 None] this show ?thesis
    by (simp add: broken_row_def)
qed

text \<open>
  Claim C8 fails on the row as given: \<open>validateRow\<close> reports one error, on the empty
  \<^verbatim>\<open>priority\<close> (zod's \<^verbatim>\<open>default\<close> replaces \<^verbatim>\<open>undefined\<close>, not the empty string),
  and no entry of its result is about \<^verbatim>\<open>applicant_name\<close> or \<^verbatim>\<open>phone\<close>, so none
  carries a suggestion for them.
\<close>

theorem validateRow_scenario_counterexample:
  "validateRow exampleDateYear 2026 scenario_row =
     [\<lparr>ve_field = ''priority'', ve_message = invalidEnumValue [''LOW'', ''MEDIUM'', ''HIGH''] [],
       ve_value = Some [], ve_suggestion = Some ''LOW''\<rparr>]"
  by (simp add: scenario_row_def validate_defs string_defs date_defs)

text \<open>
  Claim C8, amended. For the row of the scenario, \<open>validateRow\<close> returns exactly one
  error, on \<^verbatim>\<open>priority\<close>, with the suggestion \<^verbatim>\<open>LOW\<close>; \<open>getSuggestion\<close> applied
  to the name and to the phone of the row computes \<^verbatim>\<open>John Doe\<close> and
  \<^verbatim>\<open>+919876543210\<close>, which no error carries since both values pass validation; and the
  empty priority becomes \<^verbatim>\<open>LOW\<close> at ingestion: the row \<open>parseCSV\<close> makes of the same
  cells has priority \<^verbatim>\<open>LOW\<close> and validates with no error at all. The engine reads the
  date \<^verbatim>\<open>1990-01-01\<close> as a day of a year from 1900 to the year of the clock.
\<close>

theorem validateRow_scenario:
  assumes "dateYear ''1990-01-01'' = Some y" and "1900 \<le> y" and "y \<le> currentYear"
  shows "validateRow dateYear currentYear scenario_row =
           [\<lparr>ve_field = ''priority'', ve_message = invalidEnumValue [''LOW'', ''MEDIUM'', ''HIGH''] [],
             ve_value = Some [], ve_suggestion = Some ''LOW''\<rparr>] \<and>
         getSuggestion ''applicant_name'' (applicant_name scenario_row) = Some ''John Doe'' \<and>
         getSuggestion ''phone'' (phone scenario_row) = Some ''+919876543210'' \<and>
         priority (parseCSV_row index scenario_record) = Some ''LOW'' \<and>
         validateRow dateYear currentYear (parseCSV_row index scenario_record) = []"
proof (intro conjI)
  show "validateRow dateYear currentYear scenario_row =
           [\<lparr>ve_field = ''priority'', ve_message = invalidEnumValue [''LOW'', ''MEDIUM'', ''HIGH''] [],
             ve_value = Some [], ve_suggestion = Some ''LOW''\<rparr>]"
    using assms by (simp add: scenario_row_def validate_defs string_defs)
  show "getSuggestion ''applicant_name'' (applicant_name scenario_row) = Some ''John Doe''"
    by (simp add: scenario_row_def getSuggestion_def string_defs)
  show "getSuggestion ''phone'' (phone scenario_row) = Some ''+919876543210''"
    by (simp add: scenario_row_def getSuggestion_def string_defs)
  show "priority (parseCSV_row index scenario_record) = Some ''LOW''"
    by (simp add: parseCSV_row_def scenario_record_def string_defs)
  show "validateRow dateYear currentYear (parseCSV_row index scenario_record) = []"
    using assms by (simp add: parseCSV_row_def scenario_record_def validate_defs string_defs)
qed

text \<open>Witness for C8: the date read at UTC, the clock in 2026.\<close>

theorem validateRow_scenario_witness:
  "validateRow exampleDateYear 2026 scenario_row =
           [\<lparr>ve_field = ''priority'', ve_message = invalidEnumValue [''LOW'', ''MEDIUM'', ''HIGH''] [],
             ve_value = Some [], ve_suggestion = Some ''LOW''\<rparr>] \<and>
   getSuggestion ''applicant_name'' (applicant_name scenario_row) = Some ''John Doe'' \<and>
   getSuggestion ''phone'' (phone scenario_row) = Some ''+919876543210'' \<and>
   priority (parseCSV_row 0 scenario_record) = Some ''LOW'' \<and>
   validateRow exampleDateYear 2026 (parseCSV_row 0 scenario_record) = []"
proof -
  have "exampleDateYear ''1990-01-01'' = Some 1990"
    by (simp add: date_defs string_defs)
  from validateRow_scenario [of exampleDateYear 1990 2026 0] this show ?thesis
    by simp
qed


subsection \<open>validateAllRows\<close>

lemma caseSchema_messages:
  assumes "p \<in> set (caseSchema dateYear currentYear row)"
  shows "snd p \<noteq> ''Duplicate case ID in file''"
proof -
  have r1: "snd p \<noteq> ''Duplicate case ID in file''" if "p \<in> set (requiredString k m v)"
    "m \<noteq> ''Duplicate case ID in file''" for k m v
    using that by (auto simp: requiredString_def split: option.splits if_splits)
  have r2: "snd p \<noteq> ''Duplicate case ID in file''" if "p \<in> set (dobIssues dateYear currentYear v)" for v
    using that by (auto simp: dobIssues_def split: option.splits if_splits)
  have r3: "snd p \<noteq> ''Duplicate case ID in file''" if "p \<in> set (emailIssues v)" for v
    using that by (auto simp: emailIssues_def split: if_splits)
  have r4: "snd p \<noteq> ''Duplicate case ID in file''" if "p \<in> set (phoneIssues v)" for v
    using that by (auto simp: phoneIssues_def split: if_splits)
  have r5: "snd p \<noteq> ''Duplicate case ID in file''" if "p \<in> set (categoryIssues v)" for v
    using that by (auto simp: categoryIssues_def split: if_splits)
  have r6: "snd p \<noteq> ''Duplicate case ID in file''" if "p \<in> set (priorityIssues v)" for v
    using that by (auto simp: priorityIssues_def invalidEnumValue_def split: option.splits if_splits)
  from assms consider
      "p \<in> set (requiredString ''case_id'' ''Case ID is required'' (case_id row))"
    | "p \<in> set (requiredString ''applicant_name'' ''Applicant name is required'' (applicant_name row))"
    | "p \<in> set (dobIssues dateYear currentYear (dob row))"
    | "p \<in> set (emailIssues (email row))"
    | "p \<in> set (phoneIssues (phone row))"
    | "p \<in> set (categoryIssues (category row))"
    | "p \<in> set (priorityIssues (priority row))"
    unfolding caseSchema_def set_append Un_iff by blast
  then show ?thesis
  proof cases
    case 1 then show ?thesis by (rule r1) simp
  next
    case 2 then show ?thesis by (rule r1) simp
  next
    case 3 then show ?thesis by (rule r2)
  next
    case 4 then show ?thesis by (rule r3)
  next
    case 5 then show ?thesis by (rule r4)
  next
    case 6 then show ?thesis by (rule r5)
  next
    case 7 then show ?thesis by (rule r6)
  qed
qed

lemma validateRow_not_duplicate:
  "duplicateError c \<notin> set (validateRow dateYear currentYear row)"
proof
  assume "duplicateError c \<in> set (validateRow dateYear currentYear row)"
  then obtain p where "p \<in> set (caseSchema dateYear currentYear row)"
    and "snd p = ''Duplicate case ID in file''"
    by (auto simp: validateRow_def duplicateError_def)
  then show False
    using caseSchema_messages by blast
qed

lemma validateStep_other:
  "k \<noteq> rowId row \<Longrightarrow> fst (validateStep dateYear currentYear s row) k = fst s k"
  by (simp add: validateStep_def Let_def)

lemma validateStep_self:
  "fst (validateStep dateYear currentYear s row) (rowId row) =
     (let errs = validateRow dateYear currentYear row @
            (if \<exists>c. case_id row = Some c \<and> c \<noteq> [] \<and> c \<in> snd s
             then [duplicateError (the (case_id row))] else [])
      in if errs = [] then fst s (rowId row) else Some errs)"
  by (auto simp: validateStep_def Let_def split: option.splits)

lemma validateStep_seen:
  "snd (validateStep dateYear currentYear s row) =
     snd s \<union> {c. c \<noteq> [] \<and> case_id row = Some c}"
  by (auto simp: validateStep_def Let_def split: option.splits)

lemma validateRows_other:
  "k \<notin> rowId ` set rs \<Longrightarrow> fst (foldl (validateStep dateYear currentYear) s rs) k = fst s k"
  by (induction rs arbitrary: s) (simp_all add: validateStep_other)

lemma validateRows_seen:
  "snd (foldl (validateStep dateYear currentYear) s rs) =
     snd s \<union> {c. c \<noteq> [] \<and> Some c \<in> case_id ` set rs}"
proof (induction rs arbitrary: s)
  case Nil
  then show ?case by simp
next
  case (Cons r rs)
  show ?case
    unfolding foldl_Cons Cons.IH validateStep_seen by auto
qed

text \<open>The errors the loop computes for a row, given the identifiers seen before it.\<close>

lemma validateRows_entry:
  assumes "distinct (map rowId rs)" and "i < length rs"
  shows "fst (foldl (validateStep dateYear currentYear) (m, seen) rs) (rowId (rs ! i)) =
           (let r = rs ! i;
                errs = validateRow dateYear currentYear r @
                  (if \<exists>c. case_id r = Some c \<and> c \<noteq> [] \<and> (c \<in> seen \<or> Some c \<in> case_id ` set (take i rs))
                   then [duplicateError (the (case_id r))] else [])
            in if errs = [] then m (rowId r) else Some errs)"
  using assms
proof (induction rs arbitrary: i rule: rev_induct)
  case Nil
  then show ?case by simp
next
  case (snoc x xs)
  let ?s = "foldl (validateStep dateYear currentYear) (m, seen) xs"
  have d: "distinct (map rowId xs)" and nx: "rowId x \<notin> rowId ` set xs"
    using snoc.prems(1) by auto
  show ?case
  proof (cases "i < length xs")
    case True
    then have ne: "rowId (xs ! i) \<noteq> rowId x"
      using nx by (metis image_eqI nth_mem)
    have "fst (foldl (validateStep dateYear currentYear) (m, seen) (xs @ [x])) (rowId ((xs @ [x]) ! i))
        = fst ?s (rowId (xs ! i))"
      using True ne by (simp add: nth_append validateStep_other)
    then show ?thesis
      using snoc.IH [OF d True] True by (simp add: nth_append)
  next
    case False
    then have i: "i = length xs" using snoc.prems(2) by simp
    have m: "fst ?s (rowId x) = m (rowId x)"
      using validateRows_other [OF nx, of dateYear currentYear "(m, seen)"] by simp
    have sn: "snd ?s = seen \<union> {c. c \<noteq> [] \<and> Some c \<in> case_id ` set xs}"
      using validateRows_seen [of dateYear currentYear "(m, seen)" xs] by simp
    have "fst (foldl (validateStep dateYear currentYear) (m, seen) (xs @ [x])) (rowId x) =
        (let errs = validateRow dateYear currentYear x @
            (if \<exists>c. case_id x = Some c \<and> c \<noteq> [] \<and> c \<in> snd ?s
             then [duplicateError (the (case_id x))] else [])
         in if errs = [] then fst ?s (rowId x) else Some errs)"
      by (simp add: validateStep_self)
    then show ?thesis
      unfolding i m sn by (simp add: Let_def) blast
  qed
qed

lemma take_case_ids:
  assumes "i \<le> length rs"
  shows "Some c \<in> case_id ` set (take i rs) \<longleftrightarrow> (\<exists>j<i. case_id (rs ! j) = Some c)"
proof
  assume "Some c \<in> case_id ` set (take i rs)"
  then obtain r where "r \<in> set (take i rs)" "case_id r = Some c" by auto
  then obtain j where "j < length (take i rs)" "take i rs ! j = r"
    by (auto simp: in_set_conv_nth)
  then show "\<exists>j<i. case_id (rs ! j) = Some c"
    using \<open>case_id r = Some c\<close> by auto
next
  assume "\<exists>j<i. case_id (rs ! j) = Some c"
  then obtain j where j: "j < i" "case_id (rs ! j) = Some c" by blast
  then have "take i rs ! j = rs ! j" "j < length (take i rs)"
    using assms by simp_all
  then have "rs ! j \<in> set (take i rs)"
    by (metis nth_mem)
  then show "Some c \<in> case_id ` set (take i rs)"
    using j(2) by (metis image_eqI)
qed

lemma validateRows_nonempty:
  "(\<And>k. fst s k \<noteq> Some []) \<Longrightarrow> fst (foldl (validateStep dateYear currentYear) s rs) k \<noteq> Some []"
proof (induction rs arbitrary: s k)
  case Nil
  then show ?case by simp
next
  case (Cons r rs)
  have "fst (validateStep dateYear currentYear s r) k' \<noteq> Some []" for k'
    using Cons.prems by (simp add: validateStep_def Let_def)
  then show ?case
    using Cons.IH by simp
qed

text \<open>
  Claim C7, amended. The result is keyed by row id, so the rows are taken to have pairwise
  distinct ids, as ingestion assigns them. Then, for the row at position \<open>i\<close>: if no
  earlier row has its case identifier, its entry holds exactly its own field errors (none
  of which is a duplicate error); if its case identifier is not empty and an earlier row
  has it, its entry holds its own field errors followed by the duplicate error; it has no
  entry exactly when it has no field error and is not such a later occurrence; and no entry
  of the result is an empty list. A row whose identifier is empty or missing is never
  reported as a duplicate, whatever the rows before it hold: its entry holds exactly its
  own field errors. In every case the entry of the row is given by the last conjunct: the
  duplicate error is added exactly when the identifier is present, not empty, and carried
  by an earlier row.
\<close>

theorem validateAllRows_duplicates:
  assumes "distinct (map rowId rs)" and "i < length rs"
  shows "((\<forall>j<i. case_id (rs ! j) \<noteq> case_id (rs ! i)) \<longrightarrow>
            validateAllRows dateYear currentYear rs (rowId (rs ! i)) =
              (if validateRow dateYear currentYear (rs ! i) = [] then None
               else Some (validateRow dateYear currentYear (rs ! i)))) \<and>
         (\<forall>c. duplicateError c \<notin> set (validateRow dateYear currentYear (rs ! i))) \<and>
         (\<forall>c. case_id (rs ! i) = Some c \<and> c \<noteq> [] \<and> (\<exists>j<i. case_id (rs ! j) = Some c) \<longrightarrow>
            validateAllRows dateYear currentYear rs (rowId (rs ! i)) =
              Some (validateRow dateYear currentYear (rs ! i) @ [duplicateError c])) \<and>
         (validateAllRows dateYear currentYear rs (rowId (rs ! i)) = None \<longleftrightarrow>
            validateRow dateYear currentYear (rs ! i) = [] \<and>
            \<not> (\<exists>c. case_id (rs ! i) = Some c \<and> c \<noteq> [] \<and> (\<exists>j<i. case_id (rs ! j) = Some c))) \<and>
         (\<forall>k. validateAllRows dateYear currentYear rs k \<noteq> Some []) \<and>
         (case_id (rs ! i) = None \<or> case_id (rs ! i) = Some [] \<longrightarrow>
            validateAllRows dateYear currentYear rs (rowId (rs ! i)) =
              (if validateRow dateYear currentYear (rs ! i) = [] then None
               else Some (validateRow dateYear currentYear (rs ! i)))) \<and>
         validateAllRows dateYear currentYear rs (rowId (rs ! i)) =
           (if \<exists>c. case_id (rs ! i) = Some c \<and> c \<noteq> [] \<and> (\<exists>j<i. case_id (rs ! j) = Some c)
            then Some (validateRow dateYear currentYear (rs ! i) @ [duplicateError (the (case_id (rs ! i)))])
            else if validateRow dateYear currentYear (rs ! i) = [] then None
            else Some (validateRow dateYear currentYear (rs ! i)))"
proof -
  let ?r = "rs ! i"
  let ?dup = "\<exists>c. case_id ?r = Some c \<and> c \<noteq> [] \<and> (\<exists>j<i. case_id (rs ! j) = Some c)"
  have entry: "validateAllRows dateYear currentYear rs (rowId ?r) =
      (if ?dup then Some (validateRow dateYear currentYear ?r @ [duplicateError (the (case_id ?r))])
       else if validateRow dateYear currentYear ?r = [] then None
       else Some (validateRow dateYear currentYear ?r))"
    using validateRows_entry [OF assms, of dateYear currentYear Map.empty "{}"] assms(2)
    by (simp add: validateAllRows_def Let_def take_case_ids)
  have first: "\<not> ?dup" if "\<forall>j<i. case_id (rs ! j) \<noteq> case_id ?r"
    using that by metis
  have untracked: "\<not> ?dup" if "case_id ?r = None \<or> case_id ?r = Some []"
    using that by auto
  have nonempty: "validateAllRows dateYear currentYear rs k \<noteq> Some []" for k
    unfolding validateAllRows_def by (rule validateRows_nonempty) simp
  show ?thesis
  proof (intro conjI allI impI)
    assume "\<forall>j<i. case_id (rs ! j) \<noteq> case_id ?r"
    then show "validateAllRows dateYear currentYear rs (rowId ?r) =
        (if validateRow dateYear currentYear ?r = [] then None
         else Some (validateRow dateYear currentYear ?r))"
      using entry first by simp
  next
    fix c show "duplicateError c \<notin> set (validateRow dateYear currentYear ?r)"
      by (rule validateRow_not_duplicate)
  next
    fix c assume "case_id ?r = Some c \<and> c \<noteq> [] \<and> (\<exists>j<i. case_id (rs ! j) = Some c)"
    then show "validateAllRows dateYear currentYear rs (rowId ?r) =
        Some (validateRow dateYear currentYear ?r @ [duplicateError c])"
      using entry by auto
  next
    show "validateAllRows dateYear currentYear rs (rowId ?r) = None \<longleftrightarrow>
        validateRow dateYear currentYear ?r = [] \<and> \<not> ?dup"
      using entry by auto
  next
    fix k show "validateAllRows dateYear currentYear rs k \<noteq> Some []"
      by (rule nonempty)
  next
    assume "case_id ?r = None \<or> case_id ?r = Some []"
    then have nd: "\<not> ?dup"
      by (rule untracked)
    show "validateAllRows dateYear currentYear rs (rowId ?r) =
        (if validateRow dateYear currentYear ?r = [] then None
         else Some (validateRow dateYear currentYear ?r))"
      by (simp only: entry if_not_P [OF nd])
  next
    show "validateAllRows dateYear currentYear rs (rowId ?r) =
      (if ?dup then Some (validateRow dateYear currentYear ?r @ [duplicateError (the (case_id ?r))])
       else if validateRow dateYear currentYear ?r = [] then None
       else Some (validateRow dateYear currentYear ?r))"
      by (rule entry)
  qed
qed

text \<open>The row of the end-to-end test is valid.\<close>

lemma validateRow_good_row: "validateRow exampleDateYear 2026 good_row = []"
  by (simp add: good_row_def validate_defs string_defs date_defs)

text \<open>
  Witness for C7: two valid rows with distinct ids and the same case identifier; two rows
  with the same empty identifier; two rows without an identifier.
\<close>

theorem validateAllRows_duplicates_witness:
  "validateAllRows exampleDateYear 2026 [good_row, good_row\<lparr>row_id := Some ''row-1''\<rparr>] ''row-0'' = None \<and>
   validateAllRows exampleDateYear 2026 [good_row, good_row\<lparr>row_id := Some ''row-1''\<rparr>] ''row-1''
     = Some [duplicateError ''C-1001''] \<and>
   validateAllRows exampleDateYear 2026
       [good_row\<lparr>case_id := Some []\<rparr>, good_row\<lparr>row_id := Some ''row-1'', case_id := Some []\<rparr>] ''row-1''
     = Some [\<lparr>ve_field = ''case_id'', ve_message = ''Case ID is required'', ve_value = Some [],
              ve_suggestion = None\<rparr>] \<and>
   validateAllRows exampleDateYear 2026
       [good_row\<lparr>case_id := None\<rparr>, good_row\<lparr>row_id := Some ''row-1'', case_id := None\<rparr>] ''row-1''
     = Some [\<lparr>ve_field = ''case_id'', ve_message = ''Required'', ve_value = None,
              ve_suggestion = None\<rparr>]"
proof -
  let ?rs = "[good_row, good_row\<lparr>row_id := Some ''row-1''\<rparr>]"
  let ?es = "[good_row\<lparr>case_id := Some []\<rparr>, good_row\<lparr>row_id := Some ''row-1'', case_id := Some []\<rparr>]"
  let ?ns = "[good_row\<lparr>case_id := None\<rparr>, good_row\<lparr>row_id := Some ''row-1'', case_id := None\<rparr>]"
  have v: "validateRow exampleDateYear 2026 (good_row\<lparr>row_id := Some ''row-1''\<rparr>) = []"
    by (simp add: good_row_def validate_defs string_defs date_defs)
  have ve: "validateRow exampleDateYear 2026 (good_row\<lparr>row_id := Some ''row-1'', case_id := Some []\<rparr>) =
      [\<lparr>ve_field = ''case_id'', ve_message = ''Case ID is required'', ve_value = Some [],
        ve_suggestion = None\<rparr>]"
    by (simp add: good_row_def validate_defs string_defs date_defs)
  have vn: "validateRow exampleDateYear 2026 (good_row\<lparr>row_id := Some ''row-1'', case_id := None\<rparr>) =
      [\<lparr>ve_field = ''case_id'', ve_message = ''Required'', ve_value = None,
        ve_suggestion = None\<rparr>]"
    by (simp add: good_row_def validate_defs string_defs date_defs)
  have d: "distinct (map rowId ?rs)" and de: "distinct (map rowId ?es)" and dn: "distinct (map rowId ?ns)"
    by (simp_all add: rowId_def good_row_def)
  have c: "case_id good_row = Some ''C-1001''"
    by (simp add: good_row_def)
  have "validateAllRows exampleDateYear 2026 ?rs (rowId (?rs ! 0)) = None"
    using validateAllRows_duplicates [OF d, of 0 exampleDateYear 2026, THEN conjunct1] validateRow_good_row
    by simp
  moreover have "validateAllRows exampleDateYear 2026 ?rs (rowId (?rs ! 1)) = Some [duplicateError ''C-1001'']"
    using validateAllRows_duplicates [OF d, of 1 exampleDateYear 2026, THEN conjunct2, THEN conjunct2,
        THEN conjunct1] v c
    by simp
  moreover have "validateAllRows exampleDateYear 2026 ?es (rowId (?es ! 1)) =
      Some [\<lparr>ve_field = ''case_id'', ve_message = ''Case ID is required'', ve_value = Some [],
        ve_suggestion = None\<rparr>]"
    using validateAllRows_duplicates [OF de, of 1 exampleDateYear 2026, THEN conjunct2, THEN conjunct2,
        THEN conjunct2, THEN conjunct2, THEN conjunct2, THEN conjunct1] ve
    by simp
  moreover have "validateAllRows exampleDateYear 2026 ?ns (rowId (?ns ! 1)) =
      Some [\<lparr>ve_field = ''case_id'', ve_message = ''Required'', ve_value = None,
        ve_suggestion = None\<rparr>]"
    using validateAllRows_duplicates [OF dn, of 1 exampleDateYear 2026, THEN conjunct2, THEN conjunct2,
        THEN conjunct2, THEN conjunct2, THEN conjunct2, THEN conjunct1] vn
    by simp
  ultimately show ?thesis
    by (simp add: rowId_def good_row_def)
qed

text \<open>
  Claim C7 fails on two inputs. Two rows with distinct ids and an empty case identifier: the
  later one receives no duplicate error (the source tracks an identifier only when it is
  not empty). Two rows without \<^verbatim>\<open>_id\<close>, the first invalid, the second with zero errors:
  both are keyed by the empty string, and the second finds the first one's errors under
  its key.
\<close>

theorem validateAllRows_duplicates_counterexample:
  "validateAllRows exampleDateYear 2026
       [good_row\<lparr>case_id := Some []\<rparr>, good_row\<lparr>row_id := Some ''row-1'', case_id := Some []\<rparr>] ''row-1''
     = Some [\<lparr>ve_field = ''case_id'', ve_message = ''Case ID is required'', ve_value = Some [],
              ve_suggestion = None\<rparr>] \<and>
   validateRow exampleDateYear 2026 (good_row\<lparr>row_id := None\<rparr>) = [] \<and>
   validateAllRows exampleDateYear 2026
       [good_row\<lparr>row_id := None, case_id := Some []\<rparr>, good_row\<lparr>row_id := None\<rparr>]
       (rowId (good_row\<lparr>row_id := None\<rparr>))
     = Some [\<lparr>ve_field = ''case_id'', ve_message = ''Case ID is required'', ve_value = Some [],
              ve_suggestion = None\<rparr>]"
  by (simp add: validateAll_defs good_row_def validate_defs string_defs date_defs)

subsection \<open>The client store\<close>

lemma statuses_foldl:
  "foldl (\<lambda>statuses row. statuses(rowId row \<mapsto> f (rowId row))) m rs k =
     (if k \<in> rowId ` set rs then Some (f k) else m k)"
  by (induction rs arbitrary: m) auto

text \<open>
  Claim C2, amended. \<open>setValidationErrors\<close> sets the status of every row of the dataset:
  \<open>Invalid\<close> when the errors hold a non-empty list for its id, \<open>Valid\<close> otherwise,
  whatever the status was (\<open>Submitting\<close>, \<open>Success\<close> and \<open>Failed\<close> included). Only a
  status stored under an id that no row of the dataset has is left as it was.
\<close>

theorem setValidationErrors_overwrites:
  "rowStatuses (setValidationErrors errs st) rid =
     (if rid \<in> rowId ` set (mappedData st)
      then Some (if (case errs rid of None \<Rightarrow> False | Some es \<Rightarrow> es \<noteq> []) then Invalid else Valid)
      else rowStatuses st rid)"
proof -
  let ?f = "\<lambda>rid. if (case errs rid of None \<Rightarrow> False | Some es \<Rightarrow> length es > 0) then Invalid else Valid"
  have "rowStatuses (setValidationErrors errs st) =
      foldl (\<lambda>statuses row. statuses(rowId row \<mapsto> ?f (rowId row))) (rowStatuses st) (mappedData st)"
    by (simp add: setValidationErrors_def Let_def)
  then have "rowStatuses (setValidationErrors errs st) rid =
      (if rid \<in> rowId ` set (mappedData st) then Some (?f rid) else rowStatuses st rid)"
    by (simp add: statuses_foldl [where f = ?f])
  then show ?thesis
    by (simp split: option.splits)
qed

text \<open>
  Witness for C2: the row of the dataset is set to \<open>Valid\<close> from \<open>Success\<close>, and an id
  that no row has keeps what it had (nothing).
\<close>

theorem setValidationErrors_overwrites_witness:
  "rowStatuses (setValidationErrors Map.empty submitted_state) ''row-0'' = Some Valid \<and>
   rowStatuses (setValidationErrors Map.empty submitted_state) ''row-9'' = None"
  using setValidationErrors_overwrites [of Map.empty submitted_state "''row-0''"]
    setValidationErrors_overwrites [of Map.empty submitted_state "''row-9''"]
  by (simp add: submitted_state_def updateRowStatus_def rowId_def good_row_def)

text \<open>
  Claim C2 fails on a dataset of one valid row whose status is \<open>Success\<close>: revalidation
  sets it back to \<open>Valid\<close>.
\<close>

theorem setValidationErrors_counterexample:
  "rowStatuses submitted_state ''row-0'' = Some Success \<and>
   rowStatuses (setValidationErrors (validateAllRows exampleDateYear 2026 (mappedData submitted_state))
      submitted_state) ''row-0'' = Some Valid \<and>
   rowStatuses (revalidate exampleDateYear 2026 submitted_state) ''row-0'' = Some Valid"
  by (simp add: submitted_state_def updateRowStatus_def revalidate_def setValidationErrors_def
      validateAll_defs good_row_def validate_defs string_defs date_defs Let_def)

end
